theory Spec2Isabelle
  imports Complex_Main
begin

section \<open>Data model of \<open>sources/base/solve.cpp\<close>\<close>

text \<open>
  Scalars. The source computes in \<open>double\<close>. The definitions below are written over an
  arbitrary scalar type that only has to offer the operations the source applies
  (\<open>0\<close>, \<open>1\<close>, \<open>+\<close>, \<open>-\<close>, \<open>*\<close>, \<open>/\<close>, \<open><\<close>); no algebraic law is built into a
  definition, so a statement proved for every such type does not depend on how the
  arithmetic rounds. Statements that need laws of arithmetic (such as \<open>a - a = 0\<close>) are
  proved at type \<open>real\<close>, the idealisation of \<open>double\<close> without rounding.

  \<open>VectorisableD::Vec\<close> (a \<open>std::vector<double>\<close>) is a list. A \<open>cv::Mat\<close> is kept as
  the list of its columns, each column a list of the entries of that column from row 0
  on, because every access of the source to the Jacobian goes through \<open>J.col(i)\<close>.
  \<open>Indices\<close> is a list of \<open>size_t\<close>, modelled by \<open>nat\<close>: the counters of the source
  (\<open>updates\<close>, \<open>trials\<close>, \<open>i\<close>) only ever count up from 0 by one per evaluation of the
  residual and cannot leave the range of \<open>size_t\<close> in a run.
\<close>

type_synonym 'a Vec = "'a list"
type_synonym 'a Mat = "'a list list"
type_synonym Indices = "nat list"

text \<open>
  What stops a call without a value: undefined behaviour of the C++ (a remainder by zero,
  an unchecked index out of range), a failed \<open>assert\<close>, the \<open>cv::Exception\<close> OpenCV
  throws on a bad column range, and an exception that leaves the function of a worker
  thread (nothing catches it there, the process is terminated).
\<close>

datatype fault =
    RemainderByZero
  | IndexOutOfRange
  | AssertionFailed
  | CvException
  | UncaughtInThread

text \<open>
  The fields of \<open>LeastSquaresProblem\<close> that \<open>solve.cpp\<close> reads and writes. The two virtual
  members, the residual \<open>operator()\<close> and \<open>SetSolution\<close>, are implemented by subclasses
  outside this file; they are fields of the record, so that every statement below holds
  for every implementation of them.
\<close>

record 'a LeastSquaresProblem =
  m_conds :: nat
  m_vars :: nat
  m_varIdx :: Indices
  m_jacobianPattern :: "'a Mat"
  m_diffStep :: 'a
  m_diffThreads :: nat
  evaluate :: "'a Vec \<Rightarrow> 'a Vec"
  SetSolution :: "'a Vec \<Rightarrow> bool"

section \<open>\<open>LeastSquaresProblem::SetActiveVars\<close>\<close>

text \<open>
  The loop over \<open>varIdx\<close> returns \<open>false\<close> at the first index that is not below \<open>m_vars\<close>,
  before the assignment to \<open>m_varIdx\<close>.
\<close>

fun vars_in_range :: "nat \<Rightarrow> Indices \<Rightarrow> bool" where
  "vars_in_range n [] = True"
| "vars_in_range n (var # rest) = (if var \<ge> n then False else vars_in_range n rest)"

definition SetActiveVars ::
  "'a LeastSquaresProblem \<Rightarrow> Indices \<Rightarrow> bool \<times> 'a LeastSquaresProblem" where
  "SetActiveVars lsq varIdx =
     (if vars_in_range (m_vars lsq) varIdx then (True, lsq\<lparr>m_varIdx := varIdx\<rparr>)
      else (False, lsq))"

section \<open>\<open>LeastSquaresProblem::ApplyUpdate\<close>\<close>

text \<open>
  \<open>x[var] += delta[i++]\<close> for every \<open>var\<close> of \<open>m_varIdx\<close> in order. \<open>std::vector\<close>'s
  \<open>operator[]\<close> is unchecked, so an index outside \<open>x\<close> or \<open>delta\<close> is a fault of the model.
  The \<open>assert\<close> at the head of the function is a fault when it fails.
\<close>

fun apply_loop :: "Indices \<Rightarrow> nat \<Rightarrow> 'a::plus Vec \<Rightarrow> 'a Vec \<Rightarrow> fault + 'a Vec" where
  "apply_loop [] i delta x = Inr x"
| "apply_loop (var # rest) i delta x =
     (if var < length x \<and> i < length delta
      then apply_loop rest (Suc i) delta (x[var := x ! var + delta ! i])
      else Inl IndexOutOfRange)"

definition ApplyUpdate ::
  "'a::plus LeastSquaresProblem \<Rightarrow> 'a Vec \<Rightarrow> 'a Vec \<Rightarrow> fault + 'a Vec" where
  "ApplyUpdate lsq x0 delta =
     (if length delta \<le> length x0 then apply_loop (m_varIdx lsq) 0 delta x0
      else Inl AssertionFailed)"

section \<open>\<open>LeastSquaresProblem::ComputeJacobian\<close> and \<open>DiffThread\<close>\<close>

text \<open>
  A \<open>JacobianSlice\<close> is one unit of work of a worker thread. In the source \<open>col\<close> is a
  view of a column of \<open>J\<close>; here it is the index of that column, and the worker writes
  through it into the matrix it is given.
\<close>

record 'a JacobianSlice =
  slice_x :: "'a Vec"
  slice_y :: "'a Vec"
  slice_var :: nat
  slice_col :: nat
  slice_mask :: "'a Vec"

text \<open>\<open>cv::Mat::zeros(rows, cols, CV_64F)\<close>, \<open>cv::Mat::empty()\<close> and \<open>cv::Mat::col(j)\<close>.\<close>

definition zeros :: "nat \<Rightarrow> nat \<Rightarrow> 'a::zero Mat" where
  "zeros rows cols = replicate cols (replicate rows 0)"

definition mat_empty :: "'a Mat \<Rightarrow> bool" where
  "mat_empty M = (case M of [] \<Rightarrow> True | c # _ \<Rightarrow> c = [])"

definition mat_col :: "'a Mat \<Rightarrow> nat \<Rightarrow> fault + 'a Vec" where
  "mat_col M j = (if j < length M then Inr (M ! j) else Inl CvException)"

text \<open>
  \<open>cv::divide(dy, dx, slice.col)\<close> stores the quotients through the view when the view
  has the size of \<open>dy\<close>; otherwise OpenCV allocates a fresh matrix for the slice and the
  column of \<open>J\<close> keeps what it held.
\<close>

definition write_col :: "'a Mat \<Rightarrow> nat \<Rightarrow> 'a Vec \<Rightarrow> 'a Mat" where
  "write_col J c v = (if c < length J \<and> length (J ! c) = length v then J[c := v] else J)"

text \<open>
  The loop of \<open>ComputeJacobian\<close> that deals the active variables to the threads:
  the \<open>i\<close>-th variable goes to thread \<open>i % m_diffThreads\<close>.
\<close>

fun make_slices ::
  "'a LeastSquaresProblem \<Rightarrow> 'a Vec \<Rightarrow> 'a Vec \<Rightarrow> nat \<Rightarrow> Indices \<Rightarrow>
   'a JacobianSlice list list \<Rightarrow> fault + 'a JacobianSlice list list" where
  "make_slices lsq x y i [] slices = Inr slices"
| "make_slices lsq x y i (var # rest) slices =
     (if m_diffThreads lsq = 0 then Inl RemainderByZero
      else
        (let threadIdx = i mod m_diffThreads lsq in
         case (if \<not> mat_empty (m_jacobianPattern lsq)
               then mat_col (m_jacobianPattern lsq) var else Inr []) of
           Inl e \<Rightarrow> Inl e
         | Inr pattern_col \<Rightarrow>
             make_slices lsq x y (Suc i) rest
               (slices[threadIdx := slices ! threadIdx @
                  [\<lparr>slice_x = x, slice_y = y, slice_var = var, slice_col = i,
                    slice_mask = pattern_col\<rparr>]])))"

text \<open>What a worker reads of a slice.\<close>

definition slice_key :: "'a JacobianSlice \<Rightarrow> 'a Vec \<times> 'a Vec \<times> nat \<times> nat" where
  "slice_key s = (slice_x s, slice_y s, slice_var s, slice_col s)"

text \<open>
  \<open>DiffThread\<close>: for every slice of the thread, perturb the copy of \<open>x\<close> at \<open>slice.var\<close>,
  evaluate the residual there, subtract \<open>y\<close>, divide by the step and store the column.
  The field \<open>mask\<close> of the slice is not read.
\<close>

fun DiffThread ::
  "'a::{plus,minus,inverse} LeastSquaresProblem \<Rightarrow> 'a JacobianSlice list \<Rightarrow> 'a Mat \<Rightarrow>
   fault + 'a Mat" where
  "DiffThread lsq [] J = Inr J"
| "DiffThread lsq (slice # rest) J =
     (let x = slice_x slice; y = slice_y slice; dx = m_diffStep lsq in
      if slice_var slice < length x then
        (let fx = evaluate lsq (x[slice_var slice := x ! slice_var slice + dx]) in
         if length fx = length y then
           DiffThread lsq rest
             (write_col J (slice_col slice) (map (\<lambda>dy. dy / dx) (map2 (-) fx y)))
         else Inl UncaughtInThread)
      else Inl IndexOutOfRange)"

text \<open>
  The threads of the group, run to completion one after the other. Every slice writes a
  column of its own, so the order in which the threads really run does not show in \<open>J\<close>
  (lemma \<open>DiffThread_schedule\<close> below).
\<close>

fun join_all ::
  "'a::{plus,minus,inverse} LeastSquaresProblem \<Rightarrow> 'a JacobianSlice list list \<Rightarrow> 'a Mat \<Rightarrow>
   fault + 'a Mat" where
  "join_all lsq [] J = Inr J"
| "join_all lsq (slices # rest) J =
     (case DiffThread lsq slices J of Inl e \<Rightarrow> Inl e | Inr J' \<Rightarrow> join_all lsq rest J')"

text \<open>
  What \<open>ComputeJacobian\<close> hands back: the matrix it returns, the vector it leaves in its
  in/out argument \<open>y\<close>, and the points at which the calling thread itself evaluated the
  residual (line 31 of the source).
\<close>

record 'a jacobian_result =
  jac :: "'a Mat"
  y_out :: "'a Vec"
  driver_evals :: "'a Vec list"

definition ComputeJacobian ::
  "'a::{zero,plus,minus,inverse} LeastSquaresProblem \<Rightarrow> 'a Vec \<Rightarrow> 'a Vec \<Rightarrow>
   fault + 'a jacobian_result" where
  "ComputeJacobian lsq x y =
     (let J = zeros (m_conds lsq) (length (m_varIdx lsq));
          y' = (if y = [] then evaluate lsq x else y) in
      case make_slices lsq x y' 0 (m_varIdx lsq) (replicate (m_diffThreads lsq) []) of
        Inl e \<Rightarrow> Inl e
      | Inr slices \<Rightarrow>
          (case join_all lsq slices J of
             Inl e \<Rightarrow> Inl e
           | Inr J' \<Rightarrow>
               Inr \<lparr>jac = J', y_out = y', driver_evals = (if y = [] then [x] else [])\<rparr>))"

text \<open>
  The column the specification asks for, in its words: the forward difference
  \<open>(f(x + h e\<^sub>v) - y) / h\<close> of the residual along the coordinate \<open>v\<close>, and the
  single-threaded reference that lists these columns for the active variables.
\<close>

definition forward_difference ::
  "'a::{plus,minus,inverse} LeastSquaresProblem \<Rightarrow> 'a Vec \<Rightarrow> 'a Vec \<Rightarrow> nat \<Rightarrow> 'a Vec" where
  "forward_difference lsq x y v =
     map (\<lambda>dy. dy / m_diffStep lsq)
       (map2 (-) (evaluate lsq (x[v := x ! v + m_diffStep lsq])) y)"

definition reference_jacobian ::
  "'a::{plus,minus,inverse} LeastSquaresProblem \<Rightarrow> 'a Vec \<Rightarrow> 'a Mat" where
  "reference_jacobian lsq x =
     map (forward_difference lsq x (evaluate lsq x)) (m_varIdx lsq)"

section \<open>\<open>LevenbergMarquardtAlgorithm::Solve\<close>\<close>

text \<open>
  The members of the algorithm that \<open>Solve\<close> reads: the gain \<open>m_eta\<close>, the damping seed
  \<open>m_lambda\<close> and the termination criteria \<open>m_term\<close> with their fields \<open>maxCount\<close> and
  \<open>epsilon\<close>. The header that declares them is not among the sources; \<open>maxCount\<close> is only
  compared with the counters \<open>updates\<close> and \<open>trials\<close> and is a natural number here. The flag
  \<open>m_verbose\<close> only selects whether progress lines are printed and is left out together
  with the printing.
\<close>

record 'a TermCriteria =
  maxCount :: nat
  epsilon :: 'a

record 'a LevenbergMarquardtAlgorithm =
  m_eta :: 'a
  m_lambda :: 'a
  m_term :: "'a TermCriteria"

text \<open>
  \<open>Solve\<close> calls numerical routines that are not part of \<open>solve.cpp\<close>: the matrix
  products, inverse, diagonal, mean and norm of OpenCV, \<open>isfinite\<close>, and \<open>rms\<close> of the
  project's header. They are parameters of the model, one field for each expression of
  the source, so that every statement below holds whatever they compute:
  \<^item> \<open>cv_gram J\<close> is \<open>J.t() * J\<close>;
  \<^item> \<open>cv_gradient J y\<close> is \<open>J.t() * cv::Mat(y)\<close>;
  \<^item> \<open>cv_diag H\<close> is \<open>H.diag()\<close>;
  \<^item> \<open>cv_mean v\<close> is \<open>cv::mean(v)[0]\<close>;
  \<^item> \<open>cv_solve H lambda D\<close> is \<open>(H + lambda * cv::Mat::diag(H.diag())).inv() * -D\<close>;
  \<^item> \<open>cv_norm v\<close> is \<open>norm(v)\<close>.
\<close>

record 'a kernels =
  cv_gram :: "'a Mat \<Rightarrow> 'a Mat"
  cv_gradient :: "'a Mat \<Rightarrow> 'a Vec \<Rightarrow> 'a Vec"
  cv_diag :: "'a Mat \<Rightarrow> 'a Vec"
  cv_mean :: "'a Vec \<Rightarrow> 'a"
  cv_solve :: "'a Mat \<Rightarrow> 'a \<Rightarrow> 'a Vec \<Rightarrow> 'a Vec"
  cv_norm :: "'a Vec \<Rightarrow> 'a"
  rms :: "'a Vec \<Rightarrow> 'a"
  isfinite :: "'a \<Rightarrow> bool"

text \<open>
  What a caller of \<open>Solve\<close> can observe: the value returned, the warnings and errors
  written to the log, and the vector handed to \<open>SetSolution\<close> if that was called. A run
  that ends in undefined behaviour or a failed assertion returns nothing (\<open>Fault\<close>).
\<close>

datatype event = NotResponsive nat | IllPosed | ExceptionCaught | SetSolutionFailed

datatype 'a outcome = Returned bool "event list" "'a Vec option" | Fault fault

text \<open>The local variables of \<open>Solve\<close> that live across the iterations of its loops.\<close>

record 'a lm_state =
  lambda :: 'a
  converged :: bool
  derr :: "'a list"
  x_best :: "'a Vec"
  y_best :: "'a Vec"
  e_best :: 'a
  updates :: nat
  better :: bool
  trials :: nat

text \<open>
  The body of the inner \<open>while\<close> loop, one trial, in the order of the source: the step
  from the augmented normal equations, the trial point and its error, acceptance or
  rejection with the update of \<open>lambda\<close>, the four convergence tests, and the check for an
  ill-posed problem, which returns \<open>false\<close> from \<open>Solve\<close> at once.
\<close>

definition x_delta :: "'a kernels \<Rightarrow> 'a Mat \<Rightarrow> 'a Vec \<Rightarrow> 'a lm_state \<Rightarrow> 'a Vec" where
  "x_delta K H D s = cv_solve K H (lambda s) D"

definition not_responsive :: "'a::zero kernels \<Rightarrow> 'a Mat \<Rightarrow> nat list" where
  "not_responsive K H = filter (\<lambda>d. cv_diag K H ! d = 0) [0..<length (cv_diag K H)]"

definition accept ::
  "'a::{zero,one,plus,minus,times,inverse,ord} LevenbergMarquardtAlgorithm \<Rightarrow> 'a lm_state \<Rightarrow>
   'a Vec \<Rightarrow> 'a Vec \<Rightarrow> 'a \<Rightarrow> 'a lm_state" where
  "accept alg s x_try y_try e_try =
     s\<lparr>lambda := lambda s / m_eta alg, x_best := x_try, y_best := y_try, e_best := e_try,
       derr := derr s @ [e_best s - e_try], updates := Suc (updates s)\<rparr>"

definition reject ::
  "'a::{zero,one,plus,minus,times,inverse,ord} LevenbergMarquardtAlgorithm \<Rightarrow> 'a lm_state \<Rightarrow>
   'a lm_state" where
  "reject alg s = s\<lparr>lambda := lambda s * m_eta alg\<rparr>"

definition derrRatio :: "'a::{one,inverse} lm_state \<Rightarrow> 'a" where
  "derrRatio s =
     (if length (derr s) > 1
      then derr s ! (length (derr s) - 1) / derr s ! (length (derr s) - 2) else 1)"

definition stepRatio :: "'a::inverse kernels \<Rightarrow> 'a Vec \<Rightarrow> 'a lm_state \<Rightarrow> 'a" where
  "stepRatio K dx s = cv_norm K dx / cv_norm K (x_best s)"

definition convergence ::
  "'a::{zero,one,plus,minus,times,inverse,ord} LevenbergMarquardtAlgorithm \<Rightarrow> 'a kernels \<Rightarrow>
   'a Vec \<Rightarrow> 'a lm_state \<Rightarrow> bool" where
  "convergence alg K dx s =
     (updates s \<ge> maxCount (m_term alg) \<or>
      (updates s > 1 \<and> derrRatio s < epsilon (m_term alg)) \<or>
      (updates s > 1 \<and> stepRatio K dx s < epsilon (m_term alg)) \<or>
      (\<not> better s \<and> (lambda s = 0 \<or> trials s \<ge> maxCount (m_term alg))))"

definition trial ::
  "'a::{zero,one,plus,minus,times,inverse,ord} LevenbergMarquardtAlgorithm \<Rightarrow> 'a kernels \<Rightarrow>
   'a LeastSquaresProblem \<Rightarrow> 'a Mat \<Rightarrow> 'a Vec \<Rightarrow> 'a lm_state \<Rightarrow> 'a outcome + 'a lm_state" where
  "trial alg K f H D s =
     (let dx = x_delta K H D s in
      case ApplyUpdate f (x_best s) dx of
        Inl e \<Rightarrow> Inl (Fault e)
      | Inr x_try \<Rightarrow>
          (let y_try = evaluate f x_try;
               e_try = rms K y_try;
               de = e_best s - e_try;
               s1 = (if 0 < de then accept alg s x_try y_try e_try else reject alg s);
               s2 = s1\<lparr>better := (0 < de), trials := Suc (trials s)\<rparr>;
               s3 = s2\<lparr>converged := (converged s \<or> convergence alg K dx s2)\<rparr>;
               ill = (not_responsive K H \<noteq> [] \<or> \<not> isfinite K (cv_norm K dx))
           in if ill
              then Inl (Returned False (map NotResponsive (not_responsive K H) @ [IllPosed]) None)
              else Inr s3))"

text \<open>
  The inner loop \<open>while (!better && !converged)\<close>. It ends: a trial that is not
  accepted and does not set \<open>converged\<close> has left \<open>trials\<close> below \<open>maxCount\<close>.
\<close>

lemma trial_counts:
  assumes "trial alg K f H D s = Inr s'"
  shows "trials s' = Suc (trials s)"
    and "updates s' = (if better s' then Suc (updates s) else updates s)"
    and "\<not> better s' \<Longrightarrow> \<not> converged s' \<Longrightarrow> trials s' < maxCount (m_term alg)"
    and "\<not> converged s' \<Longrightarrow> updates s' < maxCount (m_term alg)"
  using assms
  by (auto simp: trial_def Let_def accept_def reject_def convergence_def
      split: sum.splits if_splits)

function inner_loop ::
  "'a::{zero,one,plus,minus,times,inverse,ord} LevenbergMarquardtAlgorithm \<Rightarrow> 'a kernels \<Rightarrow>
   'a LeastSquaresProblem \<Rightarrow> 'a Mat \<Rightarrow> 'a Vec \<Rightarrow> 'a lm_state \<Rightarrow> 'a outcome + 'a lm_state" where
  "inner_loop alg K f H D s =
     (if \<not> better s \<and> \<not> converged s
      then (case trial alg K f H D s of
              Inl res \<Rightarrow> Inl res
            | Inr s' \<Rightarrow> inner_loop alg K f H D s')
      else Inr s)"
  by pat_completeness auto
termination
proof (relation "measure (\<lambda>(alg, K, f, H, D, s).
          if better s \<or> converged s then 0 else Suc (maxCount (m_term alg) - trials s))")
  show "wf (measure (\<lambda>(alg :: 'a LevenbergMarquardtAlgorithm, K :: 'a kernels,
          f :: 'a LeastSquaresProblem, H :: 'a Mat, D :: 'a Vec, s :: 'a lm_state).
          if better s \<or> converged s then 0 else Suc (maxCount (m_term alg) - trials s)))"
    by simp
next
  fix alg :: "'a LevenbergMarquardtAlgorithm" and K :: "'a kernels"
    and f :: "'a LeastSquaresProblem" and H :: "'a Mat" and D :: "'a Vec"
    and s s' :: "'a lm_state"
  assume g: "\<not> better s \<and> \<not> converged s" and t: "trial alg K f H D s = Inr s'"
  show "((alg, K, f, H, D, s'), (alg, K, f, H, D, s)) \<in> measure (\<lambda>(alg, K, f, H, D, s).
          if better s \<or> converged s then 0 else Suc (maxCount (m_term alg) - trials s))"
    using g trial_counts(1)[OF t] trial_counts(3)[OF t] by auto
qed

declare inner_loop.simps [simp del]

lemma inner_loop_exit:
  "better s \<or> converged s \<Longrightarrow> inner_loop alg K f H D s = Inr s"
  by (subst inner_loop.simps) auto

lemma inner_loop_step:
  "\<not> better s \<Longrightarrow> \<not> converged s \<Longrightarrow>
   inner_loop alg K f H D s =
     (case trial alg K f H D s of Inl res \<Rightarrow> Inl res | Inr s' \<Rightarrow> inner_loop alg K f H D s')"
  by (subst inner_loop.simps) simp

text \<open>
  The outer loop \<open>while (!converged)\<close>: the Jacobian at the best point, the normal
  matrix and the gradient, the damping seed replaced when negative, then the inner loop.
  A \<open>cv::Exception\<close> out of \<open>ComputeJacobian\<close> is caught by the handler of \<open>Solve\<close>, which
  returns \<open>false\<close>. The loop ends: an inner loop that comes back without \<open>converged\<close> has
  accepted a step and left \<open>updates\<close> below \<open>maxCount\<close>.
\<close>

lemma inner_loop_updates:
  "inner_loop alg K f H D s = Inr s' \<Longrightarrow>
   updates s \<le> updates s' \<and>
   (\<not> better s \<and> \<not> converged s \<and> \<not> converged s' \<longrightarrow>
      updates s < updates s' \<and> updates s' < maxCount (m_term alg))"
proof (induction alg K f H D s rule: inner_loop.induct)
  case (1 alg K f H D s)
  show ?case
  proof (cases "\<not> better s \<and> \<not> converged s")
    case False
    with "1.prems" inner_loop_exit[of s alg K f H D] show ?thesis by auto
  next
    case g: True
    then obtain s1 where t: "trial alg K f H D s = Inr s1"
      and r: "inner_loop alg K f H D s1 = Inr s'"
      using "1.prems" inner_loop_step[of s alg K f H D] by (auto split: sum.splits)
    note ih = "1.IH"[OF g t r]
    note c = trial_counts[OF t]
    show ?thesis
    proof (cases "\<not> better s1 \<and> \<not> converged s1")
      case True
      with ih c(2) show ?thesis by auto
    next
      case False
      with r inner_loop_exit[of s1 alg K f H D] have "s' = s1" by auto
      with False c(2,4) show ?thesis by auto
    qed
  qed
qed

definition hessian :: "'a kernels \<Rightarrow> 'a jacobian_result \<Rightarrow> 'a Mat" where
  "hessian K r = cv_gram K (jac r)"

definition gradient :: "'a kernels \<Rightarrow> 'a jacobian_result \<Rightarrow> 'a Vec" where
  "gradient K r = cv_gradient K (jac r) (y_out r)"

definition enter_inner ::
  "'a::{zero,ord} kernels \<Rightarrow> 'a lm_state \<Rightarrow> 'a jacobian_result \<Rightarrow> 'a lm_state" where
  "enter_inner K s r =
     s\<lparr>y_best := y_out r,
       lambda := (if lambda s < 0 then cv_mean K (cv_diag K (hessian K r)) else lambda s),
       better := False, trials := 0\<rparr>"

function outer_loop ::
  "'a::{zero,one,plus,minus,times,inverse,ord} LevenbergMarquardtAlgorithm \<Rightarrow> 'a kernels \<Rightarrow>
   'a LeastSquaresProblem \<Rightarrow> 'a lm_state \<Rightarrow> 'a outcome + 'a lm_state" where
  "outer_loop alg K f s =
     (if \<not> converged s
      then (case ComputeJacobian f (x_best s) (y_best s) of
              Inl e \<Rightarrow>
                Inl (if e = CvException then Returned False [ExceptionCaught] None else Fault e)
            | Inr r \<Rightarrow>
                (case inner_loop alg K f (hessian K r) (gradient K r) (enter_inner K s r) of
                   Inl res \<Rightarrow> Inl res
                 | Inr s' \<Rightarrow> outer_loop alg K f s'))
      else Inr s)"
  by pat_completeness auto
termination
proof (relation "measure (\<lambda>(alg, K, f, s).
          if converged s then 0 else Suc (maxCount (m_term alg) - updates s))")
  show "wf (measure (\<lambda>(alg :: 'a LevenbergMarquardtAlgorithm, K :: 'a kernels,
          f :: 'a LeastSquaresProblem, s :: 'a lm_state).
          if converged s then 0 else Suc (maxCount (m_term alg) - updates s)))"
    by simp
next
  fix alg :: "'a LevenbergMarquardtAlgorithm" and K :: "'a kernels"
    and f :: "'a LeastSquaresProblem" and s s' :: "'a lm_state" and r :: "'a jacobian_result"
  assume g: "\<not> converged s"
    and "ComputeJacobian f (x_best s) (y_best s) = Inr r"
    and i: "inner_loop alg K f (hessian K r) (gradient K r) (enter_inner K s r) = Inr s'"
  have e: "updates (enter_inner K s r) = updates s" "\<not> better (enter_inner K s r)"
    "\<not> converged (enter_inner K s r)"
    using g by (simp_all add: enter_inner_def)
  show "((alg, K, f, s'), (alg, K, f, s)) \<in> measure (\<lambda>(alg, K, f, s).
          if converged s then 0 else Suc (maxCount (m_term alg) - updates s))"
    using g inner_loop_updates[OF i] e by auto
qed

declare outer_loop.simps [simp del]

text \<open>
  \<open>Solve\<close>: the assertion on the gain, the initial state, the loops, and the hand-over of
  the best point to \<open>SetSolution\<close>.
\<close>

definition initial_state ::
  "'a LevenbergMarquardtAlgorithm \<Rightarrow> 'a kernels \<Rightarrow> 'a LeastSquaresProblem \<Rightarrow> 'a Vec \<Rightarrow>
   'a lm_state" where
  "initial_state alg K f x0 =
     \<lparr>lambda = m_lambda alg, converged = False, derr = [], x_best = x0,
      y_best = evaluate f x0, e_best = rms K (evaluate f x0), updates = 0,
      better = False, trials = 0\<rparr>"

definition commit :: "'a LeastSquaresProblem \<Rightarrow> 'a outcome + 'a lm_state \<Rightarrow> 'a outcome" where
  "commit f res =
     (case res of
        Inl early \<Rightarrow> early
      | Inr s \<Rightarrow>
          if \<not> SetSolution f (x_best s)
          then Returned False [SetSolutionFailed] (Some (x_best s))
          else Returned True [] (Some (x_best s)))"

definition Solve ::
  "'a::{zero,one,plus,minus,times,inverse,ord} LevenbergMarquardtAlgorithm \<Rightarrow> 'a kernels \<Rightarrow>
   'a LeastSquaresProblem \<Rightarrow> 'a Vec \<Rightarrow> 'a outcome" where
  "Solve alg K f x0 =
     (if \<not> 1 < m_eta alg then Fault AssertionFailed
      else commit f (outer_loop alg K f (initial_state alg K f x0)))"

section \<open>The states a solve passes through\<close>

text \<open>
  \<open>outer_state alg K f x0 s\<close>: the run of \<open>Solve alg K f x0\<close> reaches the head of the outer
  loop in state \<open>s\<close>. \<open>inner_state alg K f x0 H D s\<close>: the run reaches the head of the
  inner loop in state \<open>s\<close>, with normal matrix \<open>H\<close> and gradient \<open>D\<close> of the current outer
  iteration.
\<close>

inductive outer_state ::
  "'a::{zero,one,plus,minus,times,inverse,ord} LevenbergMarquardtAlgorithm \<Rightarrow> 'a kernels \<Rightarrow>
   'a LeastSquaresProblem \<Rightarrow> 'a Vec \<Rightarrow> 'a lm_state \<Rightarrow> bool"
  for alg K f x0 where
  outer_init: "outer_state alg K f x0 (initial_state alg K f x0)"
| outer_next:
    "outer_state alg K f x0 s \<Longrightarrow> \<not> converged s \<Longrightarrow>
     ComputeJacobian f (x_best s) (y_best s) = Inr r \<Longrightarrow>
     inner_loop alg K f (hessian K r) (gradient K r) (enter_inner K s r) = Inr s' \<Longrightarrow>
     outer_state alg K f x0 s'"

inductive inner_state ::
  "'a::{zero,one,plus,minus,times,inverse,ord} LevenbergMarquardtAlgorithm \<Rightarrow> 'a kernels \<Rightarrow>
   'a LeastSquaresProblem \<Rightarrow> 'a Vec \<Rightarrow> 'a Mat \<Rightarrow> 'a Vec \<Rightarrow> 'a lm_state \<Rightarrow> bool"
  for alg K f x0 where
  inner_enter:
    "outer_state alg K f x0 s \<Longrightarrow> \<not> converged s \<Longrightarrow>
     ComputeJacobian f (x_best s) (y_best s) = Inr r \<Longrightarrow>
     inner_state alg K f x0 (hessian K r) (gradient K r) (enter_inner K s r)"
| inner_next:
    "inner_state alg K f x0 H D s \<Longrightarrow> \<not> better s \<Longrightarrow> \<not> converged s \<Longrightarrow>
     trial alg K f H D s = Inr s' \<Longrightarrow>
     inner_state alg K f x0 H D s'"

text \<open>
  What holds of the state all through a solve: \<open>derr\<close> has one entry per accepted
  update, and \<open>y_best\<close> and \<open>e_best\<close> are the residual and its rms at \<open>x_best\<close>.
\<close>

definition lm_invariant :: "'a kernels \<Rightarrow> 'a LeastSquaresProblem \<Rightarrow> 'a lm_state \<Rightarrow> bool" where
  "lm_invariant K f s \<longleftrightarrow>
     length (derr s) = updates s \<and> y_best s = evaluate f (x_best s) \<and>
     e_best s = rms K (y_best s)"

text \<open>What is left of a solve from the head of the inner loop on, up to the hand-over.\<close>

definition rest_of_iteration ::
  "'a::{zero,one,plus,minus,times,inverse,ord} LevenbergMarquardtAlgorithm \<Rightarrow> 'a kernels \<Rightarrow>
   'a LeastSquaresProblem \<Rightarrow> 'a Mat \<Rightarrow> 'a Vec \<Rightarrow> 'a lm_state \<Rightarrow> 'a outcome + 'a lm_state" where
  "rest_of_iteration alg K f H D s =
     (case inner_loop alg K f H D s of
        Inl res \<Rightarrow> Inl res | Inr s' \<Rightarrow> outer_loop alg K f s')"

section \<open>Small problems to run the definitions on\<close>

text \<open>
  Three parameters of which the third and the first are active, two residuals
  \<open>f(x) = (x\<^sub>0 + 2 x\<^sub>2, x\<^sub>1)\<close>, unit step, two worker threads, no sparsity pattern.
\<close>

definition demo_problem :: "real LeastSquaresProblem" where
  "demo_problem =
     \<lparr>m_conds = 2, m_vars = 3, m_varIdx = [2, 0], m_jacobianPattern = [],
      m_diffStep = 1, m_diffThreads = 2,
      evaluate = (\<lambda>x. [x ! 0 + 2 * x ! 2, x ! 1]),
      SetSolution = (\<lambda>x. True)\<rparr>"

text \<open>The same problem with a sparsity pattern of two rows and three columns, all zero.\<close>

definition masked_problem :: "real LeastSquaresProblem" where
  "masked_problem = demo_problem\<lparr>m_jacobianPattern := [[0, 0], [0, 0], [0, 0]]\<rparr>"

text \<open>
  Kernels over the reals for runs by hand on problems whose normal matrix is diagonal
  with one or two columns: the products, the diagonal, the mean, the Euclidean norm and
  the root mean square are the mathematical ones, and the damped normal equations are
  solved entry by entry along the diagonal. When an entry of the damped diagonal is 0 the
  matrix is singular and the step is 0, as \<open>cv::Mat::inv\<close> yields the zero matrix for a
  singular argument. Every real number is finite. The runs below never divide by 0.
\<close>

definition dot :: "real list \<Rightarrow> real list \<Rightarrow> real" where
  "dot u v = sum_list (map2 (*) u v)"

definition diagonal_kernels :: "real kernels" where
  "diagonal_kernels =
     \<lparr>cv_gram = (\<lambda>J. map (\<lambda>c. map (\<lambda>r. dot r c) J) J),
      cv_gradient = (\<lambda>J y. map (\<lambda>c. dot c y) J),
      cv_diag = (\<lambda>H. map (\<lambda>d. H ! d ! d) [0..<length H]),
      cv_mean = (\<lambda>v. sum_list v / real (length v)),
      cv_solve = (\<lambda>H l D.
         let A = map (\<lambda>d. H ! d ! d + l * (H ! d ! d)) [0..<length H]
         in if 0 \<in> set A then replicate (length H) 0
            else map (\<lambda>d. - (D ! d) / (A ! d)) [0..<length H]),
      cv_norm = (\<lambda>v. sqrt (dot v v)),
      rms = (\<lambda>v. sqrt (dot v v / real (length v))),
      isfinite = (\<lambda>a. True)\<rparr>"

definition demo_algorithm :: "real LevenbergMarquardtAlgorithm" where
  "demo_algorithm = \<lparr>m_eta = 2, m_lambda = 1, m_term = \<lparr>maxCount = 10, epsilon = 1 / 2\<rparr>\<rparr>"

text \<open>
  One parameter and one residual, given by a table; and three parameters of which the
  first and the third are active, with two residuals \<open>f(x) = (x\<^sub>0, x\<^sub>0 + x\<^sub>1)\<close> that do
  not depend on the third.
\<close>

definition table_problem :: "real LeastSquaresProblem" where
  "table_problem =
     \<lparr>m_conds = 1, m_vars = 1, m_varIdx = [0], m_jacobianPattern = [],
      m_diffStep = 1, m_diffThreads = 1,
      evaluate = (\<lambda>x. [if x ! 0 = 1 then 4 else if x ! 0 = 2 then 8
                        else if x ! 0 = 1 / 2 then 5 else if x ! 0 = 2 / 3 then 2
                        else if x ! 0 = 5 / 3 then 4 else if x ! 0 = 1 / 6 then 3 / 2
                        else 9]),
      SetSolution = (\<lambda>x. True)\<rparr>"

definition dead_problem :: "real LeastSquaresProblem" where
  "dead_problem =
     \<lparr>m_conds = 2, m_vars = 3, m_varIdx = [0, 2], m_jacobianPattern = [],
      m_diffStep = 1, m_diffThreads = 1,
      evaluate = (\<lambda>x. [x ! 0, x ! 0 + x ! 1]),
      SetSolution = (\<lambda>x. True)\<rparr>"

text \<open>
  The states of the run on the table problem from \<open>x0 = [1]\<close>: at the head of the inner
  loop of the first outer iteration, after its first trial (rejected) and its second
  (accepted); at the head of the inner loop of the second outer iteration and after its
  only trial (accepted, and converged by the quotient of the error drops). Then the
  Jacobians of the two iterations, and the entry state and Jacobian of the other problem
  at \<open>x0 = [1, 1, 1]\<close>.
\<close>

definition table_entry :: "real lm_state" where
  "table_entry =
     \<lparr>lambda = 1, converged = False, derr = [], x_best = [1], y_best = [4], e_best = 4,
      updates = 0, better = False, trials = 0\<rparr>"

definition table_rejected :: "real lm_state" where
  "table_rejected = table_entry\<lparr>lambda := 2, trials := 1\<rparr>"

definition table_accepted :: "real lm_state" where
  "table_accepted =
     \<lparr>lambda = 1, converged = False, derr = [2], x_best = [2 / 3], y_best = [2], e_best = 2,
      updates = 1, better = True, trials = 2\<rparr>"

definition table_second :: "real lm_state" where
  "table_second = table_accepted\<lparr>better := False, trials := 0\<rparr>"

definition table_converged :: "real lm_state" where
  "table_converged =
     \<lparr>lambda = 1 / 2, converged = True, derr = [2, 1 / 2], x_best = [1 / 6], y_best = [3 / 2],
      e_best = 3 / 2, updates = 2, better = True, trials = 1\<rparr>"

definition table_jac :: "real jacobian_result" where
  "table_jac = \<lparr>jac = [[4]], y_out = [4], driver_evals = []\<rparr>"

definition table_jac_second :: "real jacobian_result" where
  "table_jac_second = \<lparr>jac = [[2]], y_out = [2], driver_evals = []\<rparr>"

definition dead_entry :: "real lm_state" where
  "dead_entry =
     \<lparr>lambda = 1, converged = False, derr = [], x_best = [1, 1, 1], y_best = [1, 2],
      e_best = sqrt (5 / 2), updates = 0, better = False, trials = 0\<rparr>"

definition dead_jac :: "real jacobian_result" where
  "dead_jac = \<lparr>jac = [[1, 1], [0, 0]], y_out = [1, 2], driver_evals = []\<rparr>"

section \<open>The arithmetic of \<open>double\<close>\<close>

text \<open>
  The scalars of the program are C++ \<open>double\<close>s, IEEE 754 binary64 numbers. A \<open>double\<close> is a
  finite real of the form \<open>n * 2 ^ e\<close> with \<open>\<bar>n\<bar> < 2 ^ 53\<close> and \<open>- 1074 \<le> e \<le> 971\<close>, an
  infinity, or not a number. The sign of a zero is not kept: the only use of it in the
  arithmetic is the sign of a quotient by zero, which is here the sign of the dividend.

  \<open>round64\<close> rounds a real to the nearest \<open>double\<close>, a tie to the one with the even
  significand. The spacing of the \<open>double\<close>s around \<open>x\<close> is \<open>2 ^ ulp_exponent x\<close>: 52 binary
  places below the leading bit of \<open>x\<close>, and \<open>2 ^ - 1074\<close> for the subnormal numbers. A
  result of magnitude \<open>2 ^ 1024\<close> or more is an infinity.
\<close>

datatype double = Finite real | PlusInf | MinusInf | NaN

definition pow2 :: "int \<Rightarrow> real" where
  "pow2 e = (if 0 \<le> e then 2 ^ nat e else 1 / 2 ^ nat (- e))"

definition ulp_exponent :: "real \<Rightarrow> int" where
  "ulp_exponent x = max \<lfloor>log 2 \<bar>x\<bar>\<rfloor> (- 1022) - 52"

definition nearest_even :: "real \<Rightarrow> int" where
  "nearest_even q =
     (let n = \<lfloor>q\<rfloor>
      in if q - of_int n < 1 / 2 then n
         else if 1 / 2 < q - of_int n then n + 1
         else if even n then n else n + 1)"

definition round64 :: "real \<Rightarrow> double" where
  "round64 x =
     (if x = 0 then Finite 0
      else let u = pow2 (ulp_exponent x); y = of_int (nearest_even (x / u)) * u
           in if pow2 1024 \<le> \<bar>y\<bar> then (if 0 < x then PlusInf else MinusInf) else Finite y)"

text \<open>
  The operations: on finite operands the exact result, rounded; on the others the
  results that IEEE 754 prescribes. A comparison with a NaN is false.
\<close>

fun dneg :: "double \<Rightarrow> double" where
  "dneg (Finite a) = Finite (- a)"
| "dneg PlusInf = MinusInf"
| "dneg MinusInf = PlusInf"
| "dneg NaN = NaN"

fun negative :: "double \<Rightarrow> bool" where
  "negative (Finite a) = (a < 0)"
| "negative MinusInf = True"
| "negative x = False"

definition infinity :: "bool \<Rightarrow> double" where
  "infinity neg = (if neg then MinusInf else PlusInf)"

fun dadd :: "double \<Rightarrow> double \<Rightarrow> double" where
  "dadd (Finite a) (Finite b) = round64 (a + b)"
| "dadd NaN y = NaN"
| "dadd x NaN = NaN"
| "dadd PlusInf MinusInf = NaN"
| "dadd MinusInf PlusInf = NaN"
| "dadd (Finite a) y = y"
| "dadd x y = x"

fun dmul :: "double \<Rightarrow> double \<Rightarrow> double" where
  "dmul (Finite a) (Finite b) = round64 (a * b)"
| "dmul NaN y = NaN"
| "dmul x NaN = NaN"
| "dmul x y =
     (if x = Finite 0 \<or> y = Finite 0 then NaN else infinity (negative x \<noteq> negative y))"

fun ddiv :: "double \<Rightarrow> double \<Rightarrow> double" where
  "ddiv (Finite a) (Finite b) =
     (if b \<noteq> 0 then round64 (a / b) else if a = 0 then NaN else infinity (a < 0))"
| "ddiv NaN y = NaN"
| "ddiv x NaN = NaN"
| "ddiv (Finite a) y = Finite 0"
| "ddiv x (Finite b) = infinity (negative x \<noteq> (b < 0))"
| "ddiv x y = NaN"

fun dless :: "double \<Rightarrow> double \<Rightarrow> bool" where
  "dless (Finite a) (Finite b) = (a < b)"
| "dless NaN y = False"
| "dless x NaN = False"
| "dless x PlusInf = (x \<noteq> PlusInf)"
| "dless MinusInf y = (y \<noteq> MinusInf)"
| "dless x y = False"

fun dsqrt :: "double \<Rightarrow> double" where
  "dsqrt (Finite a) = (if a < 0 then NaN else round64 (sqrt a))"
| "dsqrt PlusInf = PlusInf"
| "dsqrt x = NaN"

fun finite_double :: "double \<Rightarrow> bool" where
  "finite_double (Finite a) = True"
| "finite_double x = False"

instantiation double :: "{zero,one,plus,minus,times,inverse,ord}"
begin

definition zero_double_def: "0 = Finite 0"

definition one_double_def: "1 = Finite 1"

definition plus_double_def: "x + y = dadd x y"

definition minus_double_def: "x - y = dadd x (dneg y)"

definition times_double_def: "x * y = dmul x y"

definition divide_double_def: "x div y = ddiv x y"

definition inverse_double_def: "inverse x = ddiv (Finite 1) x"

definition less_double_def: "x < y = dless x y"

definition less_eq_double_def: "x \<le> y = (dless x y \<or> (x = y \<and> x \<noteq> NaN))"

instance ..

end

text \<open>
  The numerical routines on \<open>double\<close>s, for a problem with one parameter: sums and dot
  products from left to right, the Euclidean norm and the root mean square as the square
  root of the (mean) sum of squares, and the damped normal equations of a matrix of one
  row and one column, \<open>(H + lambda * H).inv() * -D\<close>, where \<open>inv\<close> is the reciprocal and, as
  \<open>cv::Mat::inv\<close> does for a singular matrix, 0 when the argument is 0.
\<close>

fun total :: "double list \<Rightarrow> double" where
  "total [] = 0"
| "total [a] = a"
| "total (a # b # v) = a + total (b # v)"

definition inner :: "double list \<Rightarrow> double list \<Rightarrow> double" where
  "inner u v = total (map2 (*) u v)"

definition norm2 :: "double list \<Rightarrow> double" where
  "norm2 v = dsqrt (inner v v)"

definition root_mean_square :: "double list \<Rightarrow> double" where
  "root_mean_square v = dsqrt (inner v v / round64 (real (length v)))"

definition solve1 :: "double Mat \<Rightarrow> double \<Rightarrow> double Vec \<Rightarrow> double Vec" where
  "solve1 H l D =
     (let A = H ! 0 ! 0 + l * (H ! 0 ! 0)
      in [(if A = Finite 0 then Finite 0 else Finite 1 / A) * dneg (D ! 0)])"

definition ieee_kernels :: "double kernels" where
  "ieee_kernels =
     \<lparr>cv_gram = (\<lambda>J. map (\<lambda>c. map (\<lambda>r. inner r c) J) J),
      cv_gradient = (\<lambda>J y. map (\<lambda>c. inner c y) J),
      cv_diag = (\<lambda>H. map (\<lambda>d. H ! d ! d) [0..<length H]),
      cv_mean = (\<lambda>v. total v / round64 (real (length v))),
      cv_solve = solve1,
      cv_norm = norm2,
      rms = root_mean_square,
      isfinite = finite_double\<rparr>"

text \<open>
  A solve in \<open>double\<close>: gain 3 and damping seed \<open>3/2 + 2\<^sup>-\<^sup>5\<^sup>1\<close>, one parameter and one
  residual that is 5 below \<open>7/4\<close>, 1 from there to below 2, 4 from there to below 3 and 8
  from 3 on, unit step, started at \<open>x0 = [2]\<close>. Then the states of the first outer
  iteration: at the head of the inner loop, after the first trial (rejected) and after
  the second (accepted), and the Jacobian of the iteration.
\<close>

definition ieee_algorithm :: "double LevenbergMarquardtAlgorithm" where
  "ieee_algorithm =
     \<lparr>m_eta = Finite 3, m_lambda = Finite (3 / 2 + 1 / 2 ^ 51),
      m_term = \<lparr>maxCount = 10, epsilon = Finite (1 / 2)\<rparr>\<rparr>"

definition ieee_problem :: "double LeastSquaresProblem" where
  "ieee_problem =
     \<lparr>m_conds = 1, m_vars = 1, m_varIdx = [0], m_jacobianPattern = [],
      m_diffStep = Finite 1, m_diffThreads = 1,
      evaluate = (\<lambda>x. [if x ! 0 < Finite (7 / 4) then Finite 5
                        else if x ! 0 < Finite 2 then Finite 1
                        else if x ! 0 < Finite 3 then Finite 4 else Finite 8]),
      SetSolution = (\<lambda>x. True)\<rparr>"

definition ieee_entry :: "double lm_state" where
  "ieee_entry =
     \<lparr>lambda = Finite (3 / 2 + 1 / 2 ^ 51), converged = False, derr = [], x_best = [Finite 2],
      y_best = [Finite 4], e_best = Finite 4, updates = 0, better = False, trials = 0\<rparr>"

definition ieee_rejected :: "double lm_state" where
  "ieee_rejected = ieee_entry\<lparr>lambda := Finite (9 / 2 + 1 / 2 ^ 49), trials := 1\<rparr>"

definition ieee_accepted :: "double lm_state" where
  "ieee_accepted =
     \<lparr>lambda = Finite (3 / 2 + 3 / 2 ^ 52), converged = False, derr = [Finite 3],
      x_best = [Finite (1023545369856931 / 2 ^ 49)], y_best = [Finite 1], e_best = Finite 1,
      updates = 1, better = True, trials = 2\<rparr>"

definition ieee_jac :: "double jacobian_result" where
  "ieee_jac = \<lparr>jac = [[Finite 4]], y_out = [Finite 4], driver_evals = []\<rparr>"

section \<open>Active variables\<close>

lemma vars_in_range_iff: "vars_in_range n varIdx \<longleftrightarrow> \<not> (\<exists>var \<in> set varIdx. var \<ge> n)"
  by (induction varIdx) auto

text \<open>
  Claim C9. \<open>SetActiveVars\<close> returns \<open>false\<close> exactly when some index of the given list
  is at least \<open>m_vars\<close>; when it returns \<open>true\<close> the active set is the given list and
  nothing else of the problem has changed; when it returns \<open>false\<close> the problem is as
  it was.
\<close>

theorem SetActiveVars_spec:
  "(fst (SetActiveVars lsq varIdx) = False \<longleftrightarrow> (\<exists>var \<in> set varIdx. var \<ge> m_vars lsq)) \<and>
   (fst (SetActiveVars lsq varIdx) \<longrightarrow>
      snd (SetActiveVars lsq varIdx) = lsq\<lparr>m_varIdx := varIdx\<rparr>) \<and>
   (\<not> fst (SetActiveVars lsq varIdx) \<longrightarrow> snd (SetActiveVars lsq varIdx) = lsq)"
  by (auto simp: SetActiveVars_def vars_in_range_iff)

theorem SetActiveVars_spec_witness:
  "fst (SetActiveVars demo_problem [0, 3]) = False \<and>
   snd (SetActiveVars demo_problem [0, 3]) = demo_problem \<and>
   SetActiveVars demo_problem [1] = (True, demo_problem\<lparr>m_varIdx := [1]\<rparr>)"
  using SetActiveVars_spec[of demo_problem "[0, 3]"] SetActiveVars_spec[of demo_problem "[1]"]
  by (simp add: demo_problem_def SetActiveVars_def)

section \<open>Updates of the active coordinates\<close>

lemma apply_loop_spec:
  "distinct vs \<Longrightarrow> \<forall>v \<in> set vs. v < length x \<Longrightarrow> i + length vs \<le> length delta \<Longrightarrow>
   \<exists>x'. apply_loop vs i delta x = Inr x' \<and> length x' = length x \<and>
        (\<forall>j < length vs. x' ! (vs ! j) = x ! (vs ! j) + delta ! (i + j)) \<and>
        (\<forall>k. k \<notin> set vs \<longrightarrow> x' ! k = x ! k)"
proof (induction vs arbitrary: i x)
  case Nil
  then show ?case by simp
next
  case (Cons v rest)
  let ?x1 = "x[v := x ! v + delta ! i]"
  from Cons.prems have d: "distinct rest" and vr: "v \<notin> set rest" and vx: "v < length x"
    and il: "i < length delta" by auto
  from Cons.prems have "\<forall>u \<in> set rest. u < length ?x1" and "Suc i + length rest \<le> length delta"
    by auto
  from Cons.IH[OF d this] obtain x' where
    r: "apply_loop rest (Suc i) delta ?x1 = Inr x'" and l: "length x' = length ?x1"
    and a: "\<forall>j < length rest. x' ! (rest ! j) = ?x1 ! (rest ! j) + delta ! (Suc i + j)"
    and b: "\<forall>k. k \<notin> set rest \<longrightarrow> x' ! k = ?x1 ! k" by blast
  have "x' ! ((v # rest) ! j) = x ! ((v # rest) ! j) + delta ! (i + j)" if "j < length (v # rest)" for j
  proof (cases j)
    case 0
    with b vr vx show ?thesis by simp
  next
    case (Suc j')
    with that have j': "j' < length rest" by simp
    then have "rest ! j' \<noteq> v" using vr by (metis nth_mem)
    with a j' Suc show ?thesis by simp
  qed
  moreover have "x' ! k = x ! k" if "k \<notin> set (v # rest)" for k
    using that b by simp
  ultimately show ?case using r l vx il by simp
qed

lemma active_bound:
  assumes "distinct vs" "\<forall>v \<in> set vs. v < n"
  shows "length vs \<le> n"
proof -
  have "set vs \<subseteq> {..<n}" using assms by auto
  then have "card (set vs) \<le> card {..<n}" by (intro card_mono) auto
  then show ?thesis using assms(1) by (simp add: distinct_card)
qed

text \<open>
  Claim C4. With pairwise distinct active indices, all inside \<open>x0\<close>, and an update
  \<open>delta\<close> with one entry per active index, \<open>ApplyUpdate\<close> returns a vector of the length
  of \<open>x0\<close> that holds \<open>x0[i] + delta[j]\<close> at \<open>i = m_varIdx[j]\<close> for every position \<open>j\<close> and
  \<open>x0[i]\<close> at every coordinate \<open>i\<close> that is not active.
\<close>

theorem ApplyUpdate_spec:
  assumes "distinct (m_varIdx lsq)"
    and "\<forall>v \<in> set (m_varIdx lsq). v < length x0"
    and "length delta = length (m_varIdx lsq)"
  shows "\<exists>x. ApplyUpdate lsq x0 delta = Inr x \<and> length x = length x0 \<and>
           (\<forall>j < length (m_varIdx lsq).
              x ! (m_varIdx lsq ! j) = x0 ! (m_varIdx lsq ! j) + delta ! j) \<and>
           (\<forall>i < length x0. i \<notin> set (m_varIdx lsq) \<longrightarrow> x ! i = x0 ! i)"
proof -
  have le: "length delta \<le> length x0"
    using active_bound[OF assms(1,2)] assms(3) by simp
  from apply_loop_spec[OF assms(1,2), of 0 delta] assms(3)
  obtain x where "apply_loop (m_varIdx lsq) 0 delta x0 = Inr x" "length x = length x0"
    "\<forall>j < length (m_varIdx lsq). x ! (m_varIdx lsq ! j) = x0 ! (m_varIdx lsq ! j) + delta ! (0 + j)"
    "\<forall>k. k \<notin> set (m_varIdx lsq) \<longrightarrow> x ! k = x0 ! k"
    by auto
  with le show ?thesis by (auto simp: ApplyUpdate_def)
qed

theorem ApplyUpdate_spec_witness:
  "ApplyUpdate demo_problem [1, 2, 3] [10, 20] = Inr [21, 2, 13]"
  using ApplyUpdate_spec[of demo_problem "[1, 2, 3]" "[10, 20]"]
  by (simp add: demo_problem_def ApplyUpdate_def)

section \<open>The slices cover the active variables\<close>

lemma set_concat_snoc_at:
  "t < length xs \<Longrightarrow> set (concat (xs[t := xs ! t @ [s]])) = insert s (set (concat xs))"
proof (induction xs arbitrary: t)
  case Nil
  then show ?case by simp
next
  case (Cons a xs)
  then show ?case by (cases t) auto
qed

lemma make_slices_keys:
  assumes "0 < m_diffThreads lsq"
    and "length slices = m_diffThreads lsq"
    and "mat_empty (m_jacobianPattern lsq) \<or> (\<forall>v \<in> set vars. v < length (m_jacobianPattern lsq))"
  shows "\<exists>sl. make_slices lsq x y i vars slices = Inr sl \<and> length sl = m_diffThreads lsq \<and>
           slice_key ` set (concat sl) =
           slice_key ` set (concat slices) \<union> {(x, y, vars ! j, i + j) | j. j < length vars}"
  using assms
proof (induction vars arbitrary: i slices)
  case Nil
  then show ?case by simp
next
  case (Cons v rest)
  let ?t = "i mod m_diffThreads lsq"
  have "\<exists>pc. (if \<not> mat_empty (m_jacobianPattern lsq)
               then mat_col (m_jacobianPattern lsq) v else Inr []) = Inr pc"
    using Cons.prems(3) by (cases "mat_empty (m_jacobianPattern lsq)") (simp_all add: mat_col_def)
  then obtain pc where pc: "(if \<not> mat_empty (m_jacobianPattern lsq)
               then mat_col (m_jacobianPattern lsq) v else Inr []) = Inr pc" ..
  let ?s = "\<lparr>slice_x = x, slice_y = y, slice_var = v, slice_col = i, slice_mask = pc\<rparr>"
  let ?slices = "slices[?t := slices ! ?t @ [?s]]"
  have t: "?t < length slices" using Cons.prems by simp
  have len: "length ?slices = m_diffThreads lsq" using Cons.prems by simp
  have pat: "mat_empty (m_jacobianPattern lsq) \<or> (\<forall>v \<in> set rest. v < length (m_jacobianPattern lsq))"
    using Cons.prems(3) by auto
  from Cons.IH[OF Cons.prems(1) len pat, of "Suc i"] obtain sl where
    sl: "make_slices lsq x y (Suc i) rest ?slices = Inr sl" "length sl = m_diffThreads lsq"
    and keys: "slice_key ` set (concat sl) =
           slice_key ` set (concat ?slices) \<union> {(x, y, rest ! j, Suc i + j) | j. j < length rest}"
    by blast
  have step: "make_slices lsq x y i (v # rest) slices = Inr sl"
    using Cons.prems(1) pc sl(1) by (simp add: Let_def)
  have new: "{(x, y, (v # rest) ! j, i + j) | j. j < length (v # rest)} =
             insert (x, y, v, i) {(x, y, rest ! j, Suc i + j) | j. j < length rest}"
    (is "?L = ?R")
  proof (rule set_eqI)
    fix z
    show "z \<in> ?L \<longleftrightarrow> z \<in> ?R"
    proof
      assume "z \<in> ?L"
      then obtain j where j: "j < length (v # rest)" "z = (x, y, (v # rest) ! j, i + j)" by blast
      then show "z \<in> ?R" by (cases j) auto
    next
      assume "z \<in> ?R"
      then consider "z = (x, y, v, i)" | j where "j < length rest" "z = (x, y, rest ! j, Suc i + j)"
        by blast
      then show "z \<in> ?L"
      proof cases
        case 1
        then have "z = (x, y, (v # rest) ! 0, i + 0)" by simp
        then show ?thesis by blast
      next
        case 2
        then have "Suc j < length (v # rest)" "z = (x, y, (v # rest) ! Suc j, i + Suc j)" by simp_all
        then show ?thesis by blast
      qed
    qed
  qed
  have "set (concat ?slices) = insert ?s (set (concat slices))"
    by (rule set_concat_snoc_at[OF t])
  then have "slice_key ` set (concat ?slices) =
      insert (slice_key ?s) (slice_key ` set (concat slices))"
    by (simp only: image_insert)
  moreover have "slice_key ?s = (x, y, v, i)" by (simp add: slice_key_def)
  ultimately have "slice_key ` set (concat ?slices) =
      insert (x, y, v, i) (slice_key ` set (concat slices))" by simp
  with keys new have "slice_key ` set (concat sl) =
      slice_key ` set (concat slices) \<union> {(x, y, (v # rest) ! j, i + j) | j. j < length (v # rest)}"
    by auto
  with step sl(2) show ?case by blast
qed

section \<open>What the workers write\<close>

lemma DiffThread_append:
  "DiffThread lsq (a @ b) J =
     (case DiffThread lsq a J of Inl e \<Rightarrow> Inl e | Inr J' \<Rightarrow> DiffThread lsq b J')"
  by (induction a arbitrary: J) (simp_all add: Let_def)

lemma join_all_concat: "join_all lsq sl J = DiffThread lsq (concat sl) J"
  by (induction sl arbitrary: J) (simp_all add: DiffThread_append split: sum.splits)

lemma DiffThread_columns:
  assumes "\<forall>s \<in> set ss. slice_x s = x \<and> slice_y s = y \<and> slice_col s < length J \<and>
             slice_var s = vars ! slice_col s \<and> slice_var s < length x"
    and "\<forall>c < length J. length (J ! c) = length y"
    and "\<forall>x'. length (evaluate lsq x') = length y"
  shows "\<exists>J'. DiffThread lsq ss J = Inr J' \<and> length J' = length J \<and>
           (\<forall>k < length J. J' ! k =
              (if k \<in> slice_col ` set ss then forward_difference lsq x y (vars ! k) else J ! k))"
  using assms(1,2)
proof (induction ss arbitrary: J)
  case Nil
  then show ?case by simp
next
  case (Cons s rest)
  let ?c = "slice_col s"
  let ?v = "forward_difference lsq x y (vars ! ?c)"
  let ?J1 = "J[?c := ?v]"
  from Cons.prems(1) have s: "slice_x s = x" "slice_y s = y" "?c < length J"
    "slice_var s = vars ! ?c" "slice_var s < length x" by auto
  have lv: "length ?v = length y"
    using assms(3) by (simp add: forward_difference_def)
  have w: "write_col J ?c ?v = ?J1"
    using s(3) lv Cons.prems(2) by (simp add: write_col_def)
  have step: "DiffThread lsq (s # rest) J = DiffThread lsq rest ?J1"
    using s assms(3) w by (simp add: Let_def forward_difference_def)
  have p1: "\<forall>s \<in> set rest. slice_x s = x \<and> slice_y s = y \<and> slice_col s < length ?J1 \<and>
             slice_var s = vars ! slice_col s \<and> slice_var s < length x"
    using Cons.prems(1) by auto
  have p2: "\<forall>c < length ?J1. length (?J1 ! c) = length y"
    using Cons.prems(2) lv s(3) by (auto simp: nth_list_update)
  from Cons.IH[OF p1 p2] obtain J' where
    J': "DiffThread lsq rest ?J1 = Inr J'" "length J' = length ?J1"
    and cols: "\<forall>k < length ?J1. J' ! k =
      (if k \<in> slice_col ` set rest then forward_difference lsq x y (vars ! k) else ?J1 ! k)"
    by blast
  have "J' ! k = (if k \<in> slice_col ` set (s # rest) then forward_difference lsq x y (vars ! k)
                  else J ! k)" if "k < length J" for k
    using cols that s(3) by (auto simp: nth_list_update)
  with step J' show ?case by simp
qed

lemma zeros_cols: "length (zeros m n) = n" "c < n \<Longrightarrow> length (zeros m n ! c) = m"
  by (simp_all add: zeros_def)

lemma ComputeJacobian_general:
  fixes lsq :: "'a::{zero,plus,minus,inverse} LeastSquaresProblem"
  assumes T: "0 < m_diffThreads lsq"
    and vars: "\<forall>v \<in> set (m_varIdx lsq). v < length x"
    and len: "\<forall>x'. length (evaluate lsq x') = m_conds lsq"
    and y: "y = [] \<or> length y = m_conds lsq"
    and pat: "mat_empty (m_jacobianPattern lsq) \<or>
              (\<forall>v \<in> set (m_varIdx lsq). v < length (m_jacobianPattern lsq))"
  shows "ComputeJacobian lsq x y =
           Inr \<lparr>jac = map (forward_difference lsq x (if y = [] then evaluate lsq x else y))
                        (m_varIdx lsq),
                y_out = (if y = [] then evaluate lsq x else y),
                driver_evals = (if y = [] then [x] else [])\<rparr>"
proof -
  let ?n = "length (m_varIdx lsq)"
  let ?y = "if y = [] then evaluate lsq x else y"
  let ?J = "zeros (m_conds lsq) ?n :: 'a Mat"
  have ly: "length ?y = m_conds lsq" using len y by auto
  from make_slices_keys[OF T _ pat, of "replicate (m_diffThreads lsq) []" x ?y 0]
  obtain sl where sl: "make_slices lsq x ?y 0 (m_varIdx lsq) (replicate (m_diffThreads lsq) []) = Inr sl"
    and keys: "slice_key ` set (concat sl) = {(x, ?y, m_varIdx lsq ! j, j) | j. j < ?n}"
    by auto
  have good: "\<forall>s \<in> set (concat sl). slice_x s = x \<and> slice_y s = ?y \<and> slice_col s < length ?J \<and>
             slice_var s = m_varIdx lsq ! slice_col s \<and> slice_var s < length x"
  proof
    fix s assume "s \<in> set (concat sl)"
    then have "slice_key s \<in> {(x, ?y, m_varIdx lsq ! j, j) | j. j < ?n}"
      using keys by blast
    then obtain j where "j < ?n" "slice_key s = (x, ?y, m_varIdx lsq ! j, j)" by blast
    then show "slice_x s = x \<and> slice_y s = ?y \<and> slice_col s < length ?J \<and>
             slice_var s = m_varIdx lsq ! slice_col s \<and> slice_var s < length x"
      using vars by (simp add: slice_key_def zeros_cols)
  qed
  have cov: "k \<in> slice_col ` set (concat sl)" if "k < ?n" for k
  proof -
    from that have "(x, ?y, m_varIdx lsq ! k, k) \<in> slice_key ` set (concat sl)"
      using keys by blast
    then obtain s where "s \<in> set (concat sl)" "slice_key s = (x, ?y, m_varIdx lsq ! k, k)" by force
    then show ?thesis by (force simp: slice_key_def)
  qed
  have cols0: "\<forall>c < length ?J. length (?J ! c) = length ?y"
    using ly by (simp add: zeros_cols)
  have len': "\<forall>x'. length (evaluate lsq x') = length ?y" using len ly by simp
  from DiffThread_columns[OF good cols0 len'] obtain J' where
    J': "DiffThread lsq (concat sl) ?J = Inr J'" "length J' = ?n"
    and c: "\<forall>k < ?n. J' ! k =
       (if k \<in> slice_col ` set (concat sl) then forward_difference lsq x ?y (m_varIdx lsq ! k)
        else ?J ! k)"
    by (auto simp: zeros_cols)
  have "J' = map (forward_difference lsq x ?y) (m_varIdx lsq)"
  proof (rule nth_equalityI)
    show "length J' = length (map (forward_difference lsq x ?y) (m_varIdx lsq))"
      using J'(2) by simp
  next
    fix k assume "k < length J'"
    then have k: "k < ?n" using J'(2) by simp
    with c cov show "J' ! k = map (forward_difference lsq x ?y) (m_varIdx lsq) ! k" by simp
  qed
  with sl J'(1) show ?thesis
    by (simp add: ComputeJacobian_def join_all_concat)
qed

text \<open>
  The workers run concurrently in the source. Their slices write different columns, and
  what a slice writes depends on the slice alone, so every order in which the slices are
  served leaves the same matrix.
\<close>

lemma DiffThread_schedule:
  assumes "\<forall>s \<in> set ss. slice_x s = x \<and> slice_y s = y \<and> slice_col s < length J \<and>
             slice_var s = vars ! slice_col s \<and> slice_var s < length x"
    and "\<forall>c < length J. length (J ! c) = length y"
    and "\<forall>x'. length (evaluate lsq x') = length y"
    and "set ss' = set ss"
  shows "DiffThread lsq ss' J = DiffThread lsq ss J"
proof -
  from DiffThread_columns[OF assms(1,2,3)] obtain J1 where
    J1: "DiffThread lsq ss J = Inr J1" "length J1 = length J"
    "\<forall>k < length J. J1 ! k =
       (if k \<in> slice_col ` set ss then forward_difference lsq x y (vars ! k) else J ! k)"
    by blast
  have "\<forall>s \<in> set ss'. slice_x s = x \<and> slice_y s = y \<and> slice_col s < length J \<and>
             slice_var s = vars ! slice_col s \<and> slice_var s < length x"
    using assms(1,4) by blast
  from DiffThread_columns[OF this assms(2,3)] obtain J2 where
    J2: "DiffThread lsq ss' J = Inr J2" "length J2 = length J"
    "\<forall>k < length J. J2 ! k =
       (if k \<in> slice_col ` set ss' then forward_difference lsq x y (vars ! k) else J ! k)"
    by blast
  have "J2 = J1"
    using J1(2,3) J2(2,3) assms(4) by (intro nth_equalityI) simp_all
  with J1(1) J2(1) show ?thesis by simp
qed

section \<open>The Jacobian engine\<close>

text \<open>
  Claim C1. The claim says that an entry of \<open>J\<close> whose sparsity pattern entry is zero
  stays zero. \<open>ComputeJacobian\<close> stores the pattern column in every slice, but
  \<open>DiffThread\<close> never reads it and writes the whole column. On the small problem with an
  all-zero pattern the entry of row 0 for the active variable 2 has pattern entry 0, and
  the Jacobian holds 2 there.
\<close>

theorem ComputeJacobian_ignores_pattern:
  "m_jacobianPattern masked_problem ! 2 ! 0 = 0 \<and>
   ComputeJacobian masked_problem [1, 2, 3] [] =
     Inr \<lparr>jac = [[2, 0], [1, 0]], y_out = [7, 2], driver_evals = [[1, 2, 3]]\<rparr>"
  by (simp add: masked_problem_def demo_problem_def ComputeJacobian_def zeros_def
      mat_empty_def mat_col_def write_col_def Let_def numeral_2_eq_2)

text \<open>
  Claim C2, amended. With at least one worker thread, \<open>x\<close> of the declared dimension,
  active indices below that dimension, a residual that returns \<open>m_conds\<close> entries, the
  argument \<open>y\<close> empty or equal to \<open>f(x)\<close>, and a sparsity pattern that is absent or has one
  column per parameter: \<open>ComputeJacobian\<close> returns, column \<open>k\<close> of its matrix is the
  forward difference \<open>(f(x + h e\<^sub>v) - f(x)) / h\<close> at \<open>v = m_varIdx[k]\<close>, the matrix is the
  single-threaded reference, and the run with one thread returns the very same result.
  No law of the arithmetic is used: the equalities hold for every interpretation of
  \<open>+\<close>, \<open>-\<close> and \<open>/\<close>.
\<close>

theorem ComputeJacobian_reference:
  fixes lsq :: "'a::{zero,plus,minus,inverse} LeastSquaresProblem"
  assumes "0 < m_diffThreads lsq"
    and "length x = m_vars lsq"
    and "\<forall>v \<in> set (m_varIdx lsq). v < m_vars lsq"
    and "\<forall>x'. length (evaluate lsq x') = m_conds lsq"
    and "y = [] \<or> y = evaluate lsq x"
    and "mat_empty (m_jacobianPattern lsq) \<or> length (m_jacobianPattern lsq) = m_vars lsq"
  shows "\<exists>r. ComputeJacobian lsq x y = Inr r \<and>
           length (jac r) = length (m_varIdx lsq) \<and>
           (\<forall>k < length (m_varIdx lsq).
              jac r ! k = forward_difference lsq x (evaluate lsq x) (m_varIdx lsq ! k)) \<and>
           jac r = reference_jacobian lsq x \<and>
           ComputeJacobian (lsq\<lparr>m_diffThreads := 1\<rparr>) x y = Inr r"
proof -
  let ?one = "lsq\<lparr>m_diffThreads := 1\<rparr>"
  have y: "y = [] \<or> length y = m_conds lsq" using assms(4,5) by auto
  have v: "\<forall>v \<in> set (m_varIdx lsq). v < length x" using assms(2,3) by simp
  have p: "mat_empty (m_jacobianPattern lsq) \<or>
           (\<forall>v \<in> set (m_varIdx lsq). v < length (m_jacobianPattern lsq))"
    using assms(3,6) by auto
  have fy: "(if y = [] then evaluate lsq x else y) = evaluate lsq x" using assms(5) by auto
  have r: "ComputeJacobian lsq x y =
      Inr \<lparr>jac = reference_jacobian lsq x, y_out = evaluate lsq x,
           driver_evals = (if y = [] then [x] else [])\<rparr>"
    using ComputeJacobian_general[OF assms(1) v assms(4) y p]
    by (simp only: fy reference_jacobian_def)
  have g: "ComputeJacobian ?one x y =
      Inr \<lparr>jac = map (forward_difference ?one x (if y = [] then evaluate ?one x else y))
                   (m_varIdx ?one),
           y_out = (if y = [] then evaluate ?one x else y),
           driver_evals = (if y = [] then [x] else [])\<rparr>"
    by (rule ComputeJacobian_general) (use v assms(4) y p in simp_all)
  have e: "evaluate ?one = evaluate lsq" "m_varIdx ?one = m_varIdx lsq"
    "forward_difference ?one = forward_difference lsq"
    by (simp_all add: forward_difference_def fun_eq_iff)
  have one: "ComputeJacobian ?one x y = ComputeJacobian lsq x y"
    using g r by (simp only: e fy reference_jacobian_def)
  show ?thesis
    using r one by (simp add: reference_jacobian_def)
qed

theorem ComputeJacobian_reference_witness:
  "ComputeJacobian demo_problem [1, 2, 3] [] =
     Inr \<lparr>jac = [[2, 0], [1, 0]], y_out = [7, 2], driver_evals = [[1, 2, 3]]\<rparr> \<and>
   ComputeJacobian (demo_problem\<lparr>m_diffThreads := 1\<rparr>) [1, 2, 3] [] =
     ComputeJacobian demo_problem [1, 2, 3] []"
  using ComputeJacobian_reference[of demo_problem "[1, 2, 3]" "[]"]
  by (simp add: demo_problem_def ComputeJacobian_def zeros_def
      mat_empty_def mat_col_def write_col_def Let_def numeral_2_eq_2)

text \<open>
  The claim as stated, for every value of \<open>m_diffThreads\<close>, fails at 0: the first turn of
  the slicing loop computes \<open>i % m_diffThreads\<close>.
\<close>

theorem ComputeJacobian_no_threads:
  "ComputeJacobian (demo_problem\<lparr>m_diffThreads := 0\<rparr>) [1, 2, 3] [] = Inl RemainderByZero"
  by (simp add: demo_problem_def ComputeJacobian_def)

lemma ComputeJacobian_zero_threads:
  assumes "m_diffThreads lsq = 0" and "m_varIdx lsq \<noteq> []"
  shows "ComputeJacobian lsq x y = Inl RemainderByZero"
proof -
  from assms(2) obtain var rest where v: "m_varIdx lsq = var # rest"
    by (cases "m_varIdx lsq") auto
  show ?thesis using assms(1) by (simp add: ComputeJacobian_def v Let_def)
qed

lemma ComputeJacobian_y_out:
  "ComputeJacobian lsq x y = Inr r \<Longrightarrow>
   y_out r = (if y = [] then evaluate lsq x else y) \<and>
   driver_evals r = (if y = [] then [x] else [])"
  by (auto simp: ComputeJacobian_def Let_def split: sum.splits)

text \<open>
  Claim C10. The argument \<open>y\<close> of \<open>ComputeJacobian\<close> is read and written. Passed empty, the
  calling thread evaluates the residual at \<open>x\<close>, once, and \<open>y\<close> holds \<open>f(x)\<close> on return;
  passed non-empty, the calling thread evaluates nothing and \<open>y\<close> is returned as it came.
  Either way every column of the matrix is the forward difference against the \<open>y\<close>
  returned. \<open>ComputeJacobian\<close> is a \<open>const\<close> member: the problem is an argument of the
  model and no new problem is returned, so the active set, the pattern and the step are
  those of the caller after the call.
\<close>

theorem ComputeJacobian_in_out:
  fixes lsq :: "'a::{zero,plus,minus,inverse} LeastSquaresProblem"
  assumes "0 < m_diffThreads lsq"
    and "\<forall>v \<in> set (m_varIdx lsq). v < length x"
    and "\<forall>x'. length (evaluate lsq x') = m_conds lsq"
    and "y = [] \<or> length y = m_conds lsq"
    and "mat_empty (m_jacobianPattern lsq) \<or>
         (\<forall>v \<in> set (m_varIdx lsq). v < length (m_jacobianPattern lsq))"
  shows "\<exists>r. ComputeJacobian lsq x y = Inr r \<and>
           y_out r = (if y = [] then evaluate lsq x else y) \<and>
           driver_evals r = (if y = [] then [x] else []) \<and>
           length (jac r) = length (m_varIdx lsq) \<and>
           (\<forall>k < length (m_varIdx lsq).
              jac r ! k = forward_difference lsq x (y_out r) (m_varIdx lsq ! k))"
  using ComputeJacobian_general[OF assms] by simp

theorem ComputeJacobian_in_out_witness:
  "ComputeJacobian demo_problem [1, 2, 3] [] =
     Inr \<lparr>jac = [[2, 0], [1, 0]], y_out = [7, 2], driver_evals = [[1, 2, 3]]\<rparr> \<and>
   ComputeJacobian demo_problem [1, 2, 3] [5, 5] =
     Inr \<lparr>jac = [[4, - 3], [3, - 3]], y_out = [5, 5], driver_evals = []\<rparr>"
  using ComputeJacobian_in_out[of demo_problem "[1, 2, 3]" "[5, 5]"]
  by (simp add: demo_problem_def ComputeJacobian_def zeros_def
      mat_empty_def mat_col_def write_col_def Let_def numeral_2_eq_2)

section \<open>Invariants of the solver state\<close>

lemma trial_invariant:
  "trial alg K f H D s = Inr s' \<Longrightarrow> lm_invariant K f s \<Longrightarrow> lm_invariant K f s'"
  by (auto simp: trial_def Let_def accept_def reject_def lm_invariant_def
      split: sum.splits if_splits)

lemma inner_loop_invariant:
  "inner_loop alg K f H D s = Inr s' \<Longrightarrow> lm_invariant K f s \<Longrightarrow> lm_invariant K f s'"
proof (induction alg K f H D s rule: inner_loop.induct)
  case (1 alg K f H D s)
  show ?case
  proof (cases "\<not> better s \<and> \<not> converged s")
    case False
    with "1.prems" inner_loop_exit[of s alg K f H D] show ?thesis by auto
  next
    case g: True
    then obtain s1 where t: "trial alg K f H D s = Inr s1"
      and r: "inner_loop alg K f H D s1 = Inr s'"
      using "1.prems"(1) inner_loop_step[of s alg K f H D] by (auto split: sum.splits)
    from "1.IH"[OF g t r] trial_invariant[OF t "1.prems"(2)] show ?thesis by simp
  qed
qed

lemma enter_inner_invariant:
  "ComputeJacobian f (x_best s) (y_best s) = Inr r \<Longrightarrow> lm_invariant K f s \<Longrightarrow>
   lm_invariant K f (enter_inner K s r)"
  using ComputeJacobian_y_out[of f "x_best s" "y_best s" r]
  by (auto simp: lm_invariant_def enter_inner_def)

lemma outer_state_invariant:
  "outer_state alg K f x0 s \<Longrightarrow> lm_invariant K f s"
proof (induction rule: outer_state.induct)
  case outer_init
  show ?case by (simp add: lm_invariant_def initial_state_def)
next
  case (outer_next s r s')
  from inner_loop_invariant[OF outer_next.hyps(4) enter_inner_invariant[OF outer_next.hyps(3) outer_next.IH]]
  show ?case .
qed

lemma inner_state_invariant:
  "inner_state alg K f x0 H D s \<Longrightarrow> lm_invariant K f s"
proof (induction rule: inner_state.induct)
  case (inner_enter s r)
  then show ?case by (simp add: enter_inner_invariant outer_state_invariant)
next
  case (inner_next H D s s')
  then show ?case by (simp add: trial_invariant)
qed

lemma outer_loop_exit: "converged s \<Longrightarrow> outer_loop alg K f s = Inr s"
  by (subst outer_loop.simps) simp

lemma outer_loop_step:
  "\<not> converged s \<Longrightarrow> ComputeJacobian f (x_best s) (y_best s) = Inr r \<Longrightarrow>
   outer_loop alg K f s =
     (case inner_loop alg K f (hessian K r) (gradient K r) (enter_inner K s r) of
        Inl res \<Rightarrow> Inl res | Inr s' \<Rightarrow> outer_loop alg K f s')"
  by (subst outer_loop.simps) simp

lemma outer_state_continues:
  "outer_state alg K f x0 s \<Longrightarrow>
   outer_loop alg K f s = outer_loop alg K f (initial_state alg K f x0)"
proof (induction rule: outer_state.induct)
  case outer_init
  show ?case by simp
next
  case (outer_next s r s')
  from outer_loop_step[OF outer_next.hyps(2,3), of alg K] outer_next.hyps(4) outer_next.IH
  show ?case by simp
qed

lemma inner_state_continues:
  "inner_state alg K f x0 H D s \<Longrightarrow>
   rest_of_iteration alg K f H D s = outer_loop alg K f (initial_state alg K f x0)"
proof (induction rule: inner_state.induct)
  case (inner_enter s r)
  from outer_loop_step[OF inner_enter(2,3), of alg K] outer_state_continues[OF inner_enter(1)]
  show ?case by (simp add: rest_of_iteration_def)
next
  case (inner_next H D s s')
  from inner_loop_step[OF inner_next.hyps(2,3), of alg K f H D] inner_next.hyps(4) inner_next.IH
  show ?case by (simp add: rest_of_iteration_def)
qed

section \<open>Runs of the small problems\<close>

lemma sqrt_values:
  "sqrt 16 = 4" "sqrt 25 = 5" "sqrt 4 = 2" "sqrt (9 / 4) = 3 / 2"
  "sqrt (1 / 4) = 1 / 2" "sqrt (1 / 9) = 1 / 3" "sqrt (4 / 9) = 2 / 3" "sqrt (1 / 36) = 1 / 6"
  using real_sqrt_abs[of 4] real_sqrt_abs[of 5] real_sqrt_abs[of 2] real_sqrt_abs[of "3 / 2"]
    real_sqrt_abs[of "1 / 2"] real_sqrt_abs[of "1 / 3"] real_sqrt_abs[of "2 / 3"]
    real_sqrt_abs[of "1 / 6"]
  by (simp_all add: power2_eq_square)

lemmas trial_unfold = trial_def x_delta_def not_responsive_def accept_def reject_def
  convergence_def derrRatio_def stepRatio_def ApplyUpdate_def Let_def

lemma table_initial: "initial_state demo_algorithm diagonal_kernels table_problem [1] = table_entry"
  by (simp add: initial_state_def demo_algorithm_def diagonal_kernels_def table_problem_def
      table_entry_def dot_def sqrt_values)

lemma table_entry_jacobian:
  "ComputeJacobian table_problem (x_best table_entry) (y_best table_entry) = Inr table_jac"
  by (simp add: table_problem_def ComputeJacobian_def zeros_def mat_empty_def write_col_def
      Let_def table_entry_def table_jac_def)

lemma table_entry_normal:
  "hessian diagonal_kernels table_jac = [[16]]"
  "gradient diagonal_kernels table_jac = [16]"
  "enter_inner diagonal_kernels table_entry table_jac = table_entry"
  by (simp_all add: hessian_def gradient_def enter_inner_def diagonal_kernels_def dot_def
      table_entry_def table_jac_def)

lemma table_trial_1:
  "trial demo_algorithm diagonal_kernels table_problem [[16]] [16] table_entry =
     Inr table_rejected"
  by (simp add: trial_unfold demo_algorithm_def diagonal_kernels_def table_problem_def
      table_entry_def table_rejected_def dot_def sqrt_values)

lemma table_trial_2:
  "trial demo_algorithm diagonal_kernels table_problem [[16]] [16] table_rejected =
     Inr table_accepted"
  by (simp add: trial_unfold demo_algorithm_def diagonal_kernels_def table_problem_def
      table_entry_def table_rejected_def table_accepted_def dot_def sqrt_values)

lemma table_entry_guard: "\<not> better table_entry" "\<not> converged table_entry"
  by (simp_all add: table_entry_def)

lemma table_rejected_guard: "\<not> better table_rejected" "\<not> converged table_rejected"
  by (simp_all add: table_rejected_def table_entry_def)

lemma table_second_guard: "\<not> better table_second" "\<not> converged table_second"
  by (simp_all add: table_second_def table_accepted_def)

lemma table_inner:
  "inner_loop demo_algorithm diagonal_kernels table_problem [[16]] [16] table_entry =
     Inr table_accepted"
proof -
  have g3: "better table_accepted \<or> converged table_accepted"
    by (simp add: table_accepted_def)
  show ?thesis
    by (simp only: inner_loop_step[OF table_entry_guard] inner_loop_step[OF table_rejected_guard]
        inner_loop_exit[OF g3] table_trial_1 table_trial_2 sum.case)
qed

lemma table_second_jacobian:
  "ComputeJacobian table_problem (x_best table_accepted) (y_best table_accepted) =
     Inr table_jac_second"
  by (simp add: table_problem_def ComputeJacobian_def zeros_def mat_empty_def write_col_def
      Let_def table_accepted_def table_jac_second_def)

lemma table_second_normal:
  "hessian diagonal_kernels table_jac_second = [[4]]"
  "gradient diagonal_kernels table_jac_second = [4]"
  "enter_inner diagonal_kernels table_accepted table_jac_second = table_second"
  by (simp_all add: hessian_def gradient_def enter_inner_def diagonal_kernels_def dot_def
      table_accepted_def table_second_def table_jac_second_def)

lemma table_trial_3:
  "trial demo_algorithm diagonal_kernels table_problem [[4]] [4] table_second =
     Inr table_converged"
  by (simp add: trial_unfold demo_algorithm_def diagonal_kernels_def table_problem_def
      table_accepted_def table_second_def table_converged_def dot_def sqrt_values)

lemma table_outer_entry:
  "outer_state demo_algorithm diagonal_kernels table_problem [1] table_entry"
  using outer_init[of demo_algorithm diagonal_kernels table_problem "[1]"]
  by (simp only: table_initial)

lemma table_outer_accepted:
  "outer_state demo_algorithm diagonal_kernels table_problem [1] table_accepted"
proof -
  have "inner_loop demo_algorithm diagonal_kernels table_problem
          (hessian diagonal_kernels table_jac) (gradient diagonal_kernels table_jac)
          (enter_inner diagonal_kernels table_entry table_jac) = Inr table_accepted"
    by (simp only: table_entry_normal table_inner)
  from outer_next[OF table_outer_entry table_entry_guard(2) table_entry_jacobian this]
  show ?thesis .
qed

lemma table_inner_second:
  "inner_state demo_algorithm diagonal_kernels table_problem [1] [[4]] [4] table_second"
proof -
  have c: "\<not> converged table_accepted" by (simp add: table_accepted_def)
  from inner_enter[OF table_outer_accepted c table_second_jacobian]
  show ?thesis by (simp only: table_second_normal)
qed

lemma dead_initial: "initial_state demo_algorithm diagonal_kernels dead_problem [1, 1, 1] = dead_entry"
  by (simp add: initial_state_def demo_algorithm_def diagonal_kernels_def dead_problem_def
      dead_entry_def dot_def)

lemma dead_entry_jacobian:
  "ComputeJacobian dead_problem (x_best dead_entry) (y_best dead_entry) = Inr dead_jac"
  by (simp add: dead_problem_def ComputeJacobian_def zeros_def mat_empty_def
      write_col_def Let_def dead_entry_def dead_jac_def numeral_2_eq_2)

lemma dead_entry_normal:
  "hessian diagonal_kernels dead_jac = [[2, 0], [0, 0]]"
  "gradient diagonal_kernels dead_jac = [3, 0]"
  "enter_inner diagonal_kernels dead_entry dead_jac = dead_entry"
  by (simp_all add: hessian_def gradient_def enter_inner_def diagonal_kernels_def dot_def
      dead_entry_def dead_jac_def)

lemma dead_trial:
  "trial demo_algorithm diagonal_kernels dead_problem [[2, 0], [0, 0]] [3, 0] dead_entry =
     Inl (Returned False [NotResponsive 1, IllPosed] None)"
  by (simp add: trial_unfold demo_algorithm_def diagonal_kernels_def dead_problem_def
      dead_entry_def dot_def numeral_2_eq_2)

lemma dead_entry_guard: "\<not> better dead_entry" "\<not> converged dead_entry"
  by (simp_all add: dead_entry_def)

lemma dead_inner_entry:
  "inner_state demo_algorithm diagonal_kernels dead_problem [1, 1, 1] [[2, 0], [0, 0]] [3, 0]
     dead_entry"
proof -
  have "outer_state demo_algorithm diagonal_kernels dead_problem [1, 1, 1] dead_entry"
    using outer_init[of demo_algorithm diagonal_kernels dead_problem "[1, 1, 1]"]
    by (simp only: dead_initial)
  from inner_enter[OF this dead_entry_guard(2) dead_entry_jacobian]
  show ?thesis by (simp only: dead_entry_normal)
qed

section \<open>Rounding to \<open>double\<close>\<close>

lemmas double_arith = zero_double_def one_double_def plus_double_def minus_double_def
  times_double_def divide_double_def inverse_double_def less_double_def less_eq_double_def

lemma pow2_powr: "pow2 k = 2 powr (real_of_int k)"
  by (simp add: pow2_def powr_real_of_int inverse_eq_divide)

lemma ulp_exponent_eval:
  assumes "pow2 k \<le> \<bar>x\<bar>" and "\<bar>x\<bar> < pow2 (k + 1)"
  shows "ulp_exponent x = max k (- 1022) - 52"
proof -
  have p: "0 < pow2 k" by (simp add: pow2_powr)
  with assms have x: "0 < \<bar>x\<bar>" by linarith
  have "\<lfloor>log 2 \<bar>x\<bar>\<rfloor> = k"
    using assms floor_log_eq_powr_iff[of "\<bar>x\<bar>" 2 k] x by (simp add: pow2_powr)
  then show ?thesis by (simp add: ulp_exponent_def)
qed

text \<open>How a real with its leading bit at \<open>2 ^ k\<close> is rounded.\<close>

lemma round64_eval:
  assumes "pow2 k \<le> \<bar>x\<bar>" and "\<bar>x\<bar> < pow2 (k + 1)"
    and "y = of_int (nearest_even (x / pow2 (max k (- 1022) - 52))) * pow2 (max k (- 1022) - 52)"
    and "\<bar>y\<bar> < pow2 1024"
  shows "round64 x = Finite y"
proof -
  have p: "0 < pow2 k" by (simp add: pow2_powr)
  with assms have x: "x \<noteq> 0" by auto
  show ?thesis
    using assms(3,4) x by (simp add: round64_def ulp_exponent_eval[OF assms(1,2)] Let_def)
qed

lemma nearest_even_bounds:
  "0 \<le> q \<Longrightarrow> 0 \<le> nearest_even q \<and> real_of_int (nearest_even q) \<le> q + 1"
  by (auto simp: nearest_even_def Let_def) linarith+

lemma nearest_even_nonpos: "q \<le> 0 \<Longrightarrow> nearest_even q \<le> 0"
  by (auto simp: nearest_even_def Let_def)

text \<open>Rounding keeps the sign, so a difference of \<open>double\<close>s above 0 has a larger minuend.\<close>

lemma round64_positive:
  assumes "dless (Finite 0) (round64 x)"
  shows "0 < x"
proof (rule ccontr)
  assume "\<not> 0 < x"
  then have x: "x \<le> 0" by simp
  have u0: "0 < pow2 (ulp_exponent x)" by (simp add: pow2_powr)
  then have "x / pow2 (ulp_exponent x) \<le> 0" using x by (simp add: divide_nonpos_pos)
  then have "nearest_even (x / pow2 (ulp_exponent x)) \<le> 0" by (rule nearest_even_nonpos)
  then have "real_of_int (nearest_even (x / pow2 (ulp_exponent x))) * pow2 (ulp_exponent x) \<le> 0"
    using u0 by (simp add: mult_nonpos_nonneg)
  then have "\<not> dless (Finite 0) (round64 x)"
    using x by (simp add: round64_def Let_def)
  with assms show False by simp
qed

lemma double_sign_law: "\<forall>a b :: double. 0 < a - b \<longrightarrow> b < a"
proof (intro allI impI)
  fix a b :: double
  assume p: "0 < a - b"
  show "b < a"
  proof (cases a)
    case (Finite u)
    show ?thesis
    proof (cases b)
      case (Finite v)
      with p \<open>a = Finite u\<close> have "dless (Finite 0) (round64 (u - v))"
        by (simp add: double_arith)
      from round64_positive[OF this] show ?thesis
        using Finite \<open>a = Finite u\<close> by (simp add: double_arith)
    qed (use p Finite in \<open>simp_all add: double_arith\<close>)
  qed (use p in \<open>cases b; simp add: double_arith\<close>)+
qed

text \<open>A small non-negative real is rounded to a finite non-negative \<open>double\<close>.\<close>

lemma round64_small:
  assumes "0 \<le> x" and "x \<le> 4"
  shows "\<exists>y. round64 x = Finite y \<and> 0 \<le> y \<and> y \<le> x + 1"
proof (cases "x = 0")
  case True
  then show ?thesis by (simp add: round64_def)
next
  case False
  define e where "e = ulp_exponent x"
  define n where "n = nearest_even (x / pow2 e)"
  have x: "0 < x" using False assms by simp
  have "log 2 \<bar>x\<bar> \<le> log 2 4" using x assms by simp
  also have "log 2 4 = 2" using log_pow_cancel[of 2 2] by simp
  finally have "\<lfloor>log 2 \<bar>x\<bar>\<rfloor> \<le> 2" by (simp add: floor_le_iff)
  then have e: "e \<le> - 50" by (simp add: e_def ulp_exponent_def)
  have u0: "0 < pow2 e" by (simp add: pow2_powr)
  have "pow2 e \<le> 2 powr 0" unfolding pow2_powr using e by (intro powr_mono) simp_all
  then have u1: "pow2 e \<le> 1" by simp
  have q: "0 \<le> x / pow2 e" using x u0 by simp
  from nearest_even_bounds[OF q] have n: "0 \<le> n" "real_of_int n \<le> x / pow2 e + 1"
    by (simp_all add: n_def)
  have y0: "0 \<le> real_of_int n * pow2 e" using n(1) u0 by simp
  have "real_of_int n * pow2 e \<le> (x / pow2 e + 1) * pow2 e"
    using n(2) u0 by (intro mult_right_mono) simp_all
  also have "\<dots> = x + pow2 e" using u0 by (simp add: field_simps)
  finally have y1: "real_of_int n * pow2 e \<le> x + 1" using u1 by simp
  have "pow2 1024 = 2 ^ 1024" by (simp add: pow2_def)
  moreover have "(5 :: real) < 2 ^ 1024" by simp
  ultimately have "\<bar>real_of_int n * pow2 e\<bar> < pow2 1024" using y0 y1 assms by simp
  then have "round64 x = Finite (real_of_int n * pow2 e)"
    using False by (simp add: round64_def Let_def e_def n_def)
  with y0 y1 show ?thesis by simp
qed

text \<open>The norm of a step of magnitude at most 1 is finite.\<close>

lemma norm2_finite:
  assumes "\<bar>a\<bar> \<le> 1"
  shows "finite_double (norm2 [Finite a])"
proof -
  have s: "0 \<le> a * a" "a * a \<le> 4"
    using assms abs_mult_self[of a] mult_mono[of "\<bar>a\<bar>" 1 "\<bar>a\<bar>" 1] by simp_all
  from round64_small[OF s] obtain r where r: "round64 (a * a) = Finite r" "0 \<le> r" "r \<le> a * a + 1"
    by blast
  have "a * a \<le> 1" using assms mult_mono[of "\<bar>a\<bar>" 1 "\<bar>a\<bar>" 1] abs_mult_self[of a] by simp
  with r have r2: "r \<le> 4" by simp
  have "sqrt r \<le> sqrt 4" using r2 by (simp only: real_sqrt_le_iff)
  then have t: "sqrt r \<le> 4" by simp
  have t0: "0 \<le> sqrt r" using r(2) by simp
  from round64_small[OF t0 t] obtain y where "round64 (sqrt r) = Finite y" by blast
  then show ?thesis using r by (simp add: norm2_def inner_def times_double_def)
qed

text \<open>The roundings that occur in the run of \<open>ieee_problem\<close>.\<close>

lemma round64_values:
  "round64 1 = Finite 1"
  "round64 3 = Finite 3"
  "round64 4 = Finite 4"
  "round64 5 = Finite 5"
  "round64 16 = Finite 16"
  "round64 25 = Finite 25"
  "round64 (- 1) = Finite (- 1)"
  by (rule round64_eval[of 0], simp_all add: pow2_def nearest_even_def)
    (rule round64_eval[of 1], simp_all add: pow2_def nearest_even_def,
     rule round64_eval[of 2], simp_all add: pow2_def nearest_even_def,
     rule round64_eval[of 2], simp_all add: pow2_def nearest_even_def,
     rule round64_eval[of 4], simp_all add: pow2_def nearest_even_def,
     rule round64_eval[of 4], simp_all add: pow2_def nearest_even_def,
     rule round64_eval[of 0], simp_all add: pow2_def nearest_even_def)

lemma round64_run:
  "round64 (3377699720527873 / 140737488355328) = Finite (3377699720527873 / 140737488355328)"
  "round64 (5629499534213121 / 140737488355328) = Finite (5629499534213121 / 140737488355328)"
  "round64 (140737488355328 / 5629499534213121) = Finite (900719925474099 / 36028797018963968)"
  "round64 (- (900719925474099 / 2251799813685248)) = Finite (- (900719925474099 / 2251799813685248))"
  "round64 (3602879701896397 / 2251799813685248) = Finite (3602879701896397 / 2251799813685248)"
  "round64 (10133099161583619 / 2251799813685248) = Finite (2533274790395905 / 562949953421312)"
  "round64 (2533274790395905 / 35184372088832) = Finite (2533274790395905 / 35184372088832)"
  "round64 (3096224743817217 / 35184372088832) = Finite (3096224743817217 / 35184372088832)"
  "round64 (35184372088832 / 3096224743817217) = Finite (1637672591771089 / 144115188075855872)"
  "round64 (- (1637672591771089 / 9007199254740992)) = Finite (- (1637672591771089 / 9007199254740992))"
  "round64 (16376725917710895 / 9007199254740992) = Finite (1023545369856931 / 562949953421312)"
  "round64 (2533274790395905 / 1688849860263936) = Finite (6755399441055747 / 4503599627370496)"
  "round64 (3377699720527873 / 6755399441055744) = Finite (4503599627370497 / 9007199254740992)"
  "round64 (13510798882111491 / 9007199254740992) = Finite (3377699720527873 / 2251799813685248)"
  by (rule round64_eval[of 4], simp_all add: pow2_def nearest_even_def)
    (rule round64_eval[of 5], simp_all add: pow2_def nearest_even_def,
     rule round64_eval[of "- 6"], simp_all add: pow2_def nearest_even_def,
     rule round64_eval[of "- 2"], simp_all add: pow2_def nearest_even_def,
     rule round64_eval[of 0], simp_all add: pow2_def nearest_even_def,
     rule round64_eval[of 2], simp_all add: pow2_def nearest_even_def,
     rule round64_eval[of 6], simp_all add: pow2_def nearest_even_def,
     rule round64_eval[of 6], simp_all add: pow2_def nearest_even_def,
     rule round64_eval[of "- 7"], simp_all add: pow2_def nearest_even_def,
     rule round64_eval[of "- 3"], simp_all add: pow2_def nearest_even_def,
     rule round64_eval[of 0], simp_all add: pow2_def nearest_even_def,
     rule round64_eval[of 0], simp_all add: pow2_def nearest_even_def,
     rule round64_eval[of "- 1"], simp_all add: pow2_def nearest_even_def,
     rule round64_eval[of 0], simp_all add: pow2_def nearest_even_def)

lemma ieee_initial:
  "initial_state ieee_algorithm ieee_kernels ieee_problem [Finite 2] = ieee_entry"
  by (simp add: initial_state_def ieee_algorithm_def ieee_kernels_def ieee_problem_def
      ieee_entry_def root_mean_square_def inner_def double_arith round64_values sqrt_values)

lemma ieee_entry_jacobian:
  "ComputeJacobian ieee_problem (x_best ieee_entry) (y_best ieee_entry) = Inr ieee_jac"
  by (simp add: ieee_problem_def ComputeJacobian_def zeros_def mat_empty_def write_col_def
      Let_def ieee_entry_def ieee_jac_def double_arith round64_values)

lemma ieee_entry_normal:
  "hessian ieee_kernels ieee_jac = [[Finite 16]]"
  "gradient ieee_kernels ieee_jac = [Finite 16]"
  "enter_inner ieee_kernels ieee_entry ieee_jac = ieee_entry"
  by (simp_all add: hessian_def gradient_def enter_inner_def ieee_kernels_def inner_def
      ieee_entry_def ieee_jac_def double_arith round64_values)

lemma ieee_trial_1:
  "trial ieee_algorithm ieee_kernels ieee_problem [[Finite 16]] [Finite 16] ieee_entry =
     Inr ieee_rejected"
  by (simp add: trial_unfold ieee_algorithm_def ieee_kernels_def ieee_problem_def
      ieee_entry_def ieee_rejected_def solve1_def root_mean_square_def inner_def double_arith
      round64_values round64_run sqrt_values norm2_finite)

lemma ieee_trial_2:
  "trial ieee_algorithm ieee_kernels ieee_problem [[Finite 16]] [Finite 16] ieee_rejected =
     Inr ieee_accepted"
  by (simp add: trial_unfold ieee_algorithm_def ieee_kernels_def ieee_problem_def
      ieee_entry_def ieee_rejected_def ieee_accepted_def solve1_def root_mean_square_def
      inner_def double_arith round64_values round64_run sqrt_values norm2_finite)

lemma ieee_entry_guard: "\<not> better ieee_entry" "\<not> converged ieee_entry"
  by (simp_all add: ieee_entry_def)



lemma ieee_outer_entry:
  "outer_state ieee_algorithm ieee_kernels ieee_problem [Finite 2] ieee_entry"
  using outer_init[of ieee_algorithm ieee_kernels ieee_problem "[Finite 2]"]
  by (simp only: ieee_initial)

lemma ieee_inner_entry:
  "inner_state ieee_algorithm ieee_kernels ieee_problem [Finite 2] [[Finite 16]] [Finite 16]
     ieee_entry"
  using inner_enter[OF ieee_outer_entry ieee_entry_guard(2) ieee_entry_jacobian]
  by (simp only: ieee_entry_normal)

lemma ieee_inner_rejected:
  "inner_state ieee_algorithm ieee_kernels ieee_problem [Finite 2] [[Finite 16]] [Finite 16]
     ieee_rejected"
  by (rule inner_next[OF ieee_inner_entry ieee_entry_guard ieee_trial_1])

lemma ieee_rms:
  "rms ieee_kernels (y_best ieee_accepted) = Finite 1"
  "rms ieee_kernels (y_best ieee_rejected) = Finite 4"
  by (simp_all add: ieee_kernels_def ieee_accepted_def ieee_rejected_def ieee_entry_def
      root_mean_square_def inner_def double_arith round64_values sqrt_values)



section \<open>The Levenberg-Marquardt loop\<close>






lemma trial_converged:
  "trial alg K f H D s = Inr s' \<Longrightarrow>
   converged s' \<longleftrightarrow> converged s \<or> convergence alg K (x_delta K H D s) s'"
  by (auto simp: trial_def Let_def convergence_def derrRatio_def stepRatio_def
      split: sum.splits if_splits)

lemma trial_derr:
  "trial alg K f H D s = Inr s' \<Longrightarrow> lm_invariant K f s \<Longrightarrow>
   derr s' = (if better s' then derr s @ [rms K (y_best s) - rms K (y_best s')] else derr s)"
  by (auto simp: trial_def Let_def accept_def reject_def lm_invariant_def
      split: sum.splits if_splits)

text \<open>
  Claim C6. After a trial of the inner loop of a solve, \<open>converged\<close> holds exactly when
  \<open>updates\<close> has reached \<open>maxCount\<close>, or more than one update was accepted and the quotient
  of the last two entries of \<open>derr\<close> is below \<open>epsilon\<close>, or more than one update was
  accepted and the norm of the step over the norm of \<open>x_best\<close> is below \<open>epsilon\<close>, or the
  trial was rejected and \<open>lambda\<close> is 0 or \<open>trials\<close> has reached \<open>maxCount\<close>. All values
  are those after the trial. The entries of \<open>derr\<close> are the error drops of the accepted
  trials in their order: \<open>derr\<close> has one entry for each update, an accepted trial appends
  the \<open>rms\<close> of the residual it replaces minus the \<open>rms\<close> of the residual it commits, and a
  rejected trial leaves \<open>derr\<close> as it was. No law of the arithmetic is used.
\<close>

theorem trial_convergence:
  assumes "inner_state alg K f x0 H D s"
    and "\<not> better s" and "\<not> converged s"
    and "trial alg K f H D s = Inr s'"
  shows "(converged s' \<longleftrightarrow>
           updates s' \<ge> maxCount (m_term alg) \<or>
           (updates s' > 1 \<and>
              derr s' ! (length (derr s') - 1) / derr s' ! (length (derr s') - 2)
                < epsilon (m_term alg)) \<or>
           (updates s' > 1 \<and>
              cv_norm K (x_delta K H D s) / cv_norm K (x_best s') < epsilon (m_term alg)) \<or>
           (\<not> better s' \<and> (lambda s' = 0 \<or> trials s' \<ge> maxCount (m_term alg)))) \<and>
         length (derr s') = updates s' \<and>
         derr s' =
           (if better s' then derr s @ [rms K (y_best s) - rms K (y_best s')] else derr s)"
proof -
  have i: "lm_invariant K f s" by (rule inner_state_invariant[OF assms(1)])
  have l: "length (derr s') = updates s'"
    using trial_invariant[OF assms(4) i] by (simp add: lm_invariant_def)
  have "converged s' \<longleftrightarrow> convergence alg K (x_delta K H D s) s'"
    using trial_converged[OF assms(4)] assms(3) by simp
  then have c: "converged s' \<longleftrightarrow>
           updates s' \<ge> maxCount (m_term alg) \<or>
           (updates s' > 1 \<and>
              derr s' ! (length (derr s') - 1) / derr s' ! (length (derr s') - 2)
                < epsilon (m_term alg)) \<or>
           (updates s' > 1 \<and>
              cv_norm K (x_delta K H D s) / cv_norm K (x_best s') < epsilon (m_term alg)) \<or>
           (\<not> better s' \<and> (lambda s' = 0 \<or> trials s' \<ge> maxCount (m_term alg)))"
    using l by (auto simp: convergence_def derrRatio_def stepRatio_def)
  from c l trial_derr[OF assms(4) i] show ?thesis by blast
qed

theorem trial_convergence_witness:
  "trial demo_algorithm diagonal_kernels table_problem [[4]] [4] table_second =
     Inr table_converged \<and>
   converged table_converged \<and>
   updates table_converged = 2 \<and> updates table_converged < maxCount (m_term demo_algorithm) \<and>
   derr table_converged = [2, 1 / 2] \<and>
   derr table_converged ! 1 / derr table_converged ! 0 < epsilon (m_term demo_algorithm) \<and>
   rms diagonal_kernels (y_best table_second) - rms diagonal_kernels (y_best table_converged)
     = 1 / 2"
  using trial_convergence[OF table_inner_second table_second_guard table_trial_3] table_trial_3
  by (simp add: table_converged_def table_second_def table_accepted_def demo_algorithm_def
      diagonal_kernels_def dot_def sqrt_values)

text \<open>
  Claim C8. In a solve, a trial that is accepted leaves an \<open>rms(y_best)\<close> strictly below
  the one before the trial; a trial that is rejected leaves \<open>x_best\<close>, \<open>y_best\<close> and
  \<open>e_best\<close> as they were; and \<open>e_best\<close> is the \<open>rms\<close> of \<open>y_best\<close> before and after. The one
  law of the arithmetic that is used is that a difference \<open>a - b\<close> above 0 has \<open>b\<close> below
  \<open>a\<close>; it holds of \<open>double\<close> (\<open>double_sign_law\<close>).
\<close>

theorem accepted_step_improves:
  fixes alg :: "'a::{zero,one,plus,minus,times,inverse,ord} LevenbergMarquardtAlgorithm"
  assumes "\<forall>a b :: 'a. 0 < a - b \<longrightarrow> b < a"
    and "inner_state alg K f x0 H D s"
    and "trial alg K f H D s = Inr s'"
  shows "(better s' \<longrightarrow> rms K (y_best s') < rms K (y_best s)) \<and>
         (\<not> better s' \<longrightarrow> x_best s' = x_best s \<and> y_best s' = y_best s \<and> e_best s' = e_best s) \<and>
         e_best s = rms K (y_best s) \<and> e_best s' = rms K (y_best s')"
proof -
  have i: "lm_invariant K f s" by (rule inner_state_invariant[OF assms(2)])
  have i': "lm_invariant K f s'" by (rule trial_invariant[OF assms(3) i])
  from i i' assms(1,3) show ?thesis
    by (auto simp: trial_def Let_def accept_def reject_def lm_invariant_def
        split: sum.splits if_splits)
qed

theorem accepted_step_improves_witness:
  "trial ieee_algorithm ieee_kernels ieee_problem [[Finite 16]] [Finite 16] ieee_rejected =
     Inr ieee_accepted \<and>
   better ieee_accepted \<and>
   rms ieee_kernels (y_best ieee_accepted) < rms ieee_kernels (y_best ieee_rejected) \<and>
   rms ieee_kernels (y_best ieee_accepted) = Finite 1 \<and>
   rms ieee_kernels (y_best ieee_rejected) = Finite 4"
proof -
  have b: "better ieee_accepted" by (simp add: ieee_accepted_def)
  from accepted_step_improves[OF double_sign_law ieee_inner_rejected ieee_trial_2] b
  have "rms ieee_kernels (y_best ieee_accepted) < rms ieee_kernels (y_best ieee_rejected)"
    by blast
  with ieee_trial_2 b ieee_rms show ?thesis by (intro conjI)
qed

text \<open>
  Claim C7, amended. If the gain passes the assertion and a trial of the solve that can
  apply its step finds an entry 0 on the diagonal of \<open>H\<close> or a step whose norm is not
  finite, then \<open>Solve\<close> returns \<open>false\<close>; the log holds one warning for each position \<open>d\<close>
  on the diagonal of \<open>H\<close> with entry 0, in increasing order, before the error that the
  problem is ill-posed; and \<open>SetSolution\<close> is not called. The number in a warning is the
  position \<open>d\<close> of the parameter in the active set, not its index \<open>m_varIdx[d]\<close> in the
  parameter vector.
\<close>

theorem ill_posed_returns_false:
  assumes "1 < m_eta alg"
    and "inner_state alg K f x0 H D s"
    and "\<not> better s" and "\<not> converged s"
    and "ApplyUpdate f (x_best s) (x_delta K H D s) = Inr x_try"
    and "(\<exists>d < length (cv_diag K H). cv_diag K H ! d = 0) \<or>
         \<not> isfinite K (cv_norm K (x_delta K H D s))"
  shows "Solve alg K f x0 =
           Returned False
             (map NotResponsive (filter (\<lambda>d. cv_diag K H ! d = 0) [0..<length (cv_diag K H)])
              @ [IllPosed])
             None"
proof -
  have "not_responsive K H \<noteq> [] \<or> \<not> isfinite K (cv_norm K (x_delta K H D s))"
    using assms(6) by (auto simp: not_responsive_def filter_empty_conv)
  then have t: "trial alg K f H D s =
      Inl (Returned False (map NotResponsive (not_responsive K H) @ [IllPosed]) None)"
    using assms(5) by (auto simp: trial_def Let_def)
  have "rest_of_iteration alg K f H D s =
      Inl (Returned False (map NotResponsive (not_responsive K H) @ [IllPosed]) None)"
    using inner_loop_step[OF assms(3,4), of alg K f H D] t
    by (simp add: rest_of_iteration_def)
  then have "outer_loop alg K f (initial_state alg K f x0) =
      Inl (Returned False (map NotResponsive (not_responsive K H) @ [IllPosed]) None)"
    using inner_state_continues[OF assms(2)] by simp
  then show ?thesis
    using assms(1) by (simp add: Solve_def commit_def not_responsive_def)
qed

theorem ill_posed_returns_false_witness:
  "cv_diag diagonal_kernels [[2, 0], [0, 0]] = [2, 0] \<and>
   Solve demo_algorithm diagonal_kernels dead_problem [1, 1, 1] =
     Returned False [NotResponsive 1, IllPosed] None"
proof -
  have e: "1 < m_eta demo_algorithm" by (simp add: demo_algorithm_def)
  have d: "cv_diag diagonal_kernels [[2, 0], [0, 0]] = [2, 0]"
    by (simp add: diagonal_kernels_def numeral_2_eq_2)
  have u: "ApplyUpdate dead_problem (x_best dead_entry)
             (x_delta diagonal_kernels [[2, 0], [0, 0]] [3, 0] dead_entry) = Inr [1, 1, 1]"
    by (simp add: ApplyUpdate_def x_delta_def diagonal_kernels_def dead_problem_def
        dead_entry_def numeral_2_eq_2 atLeast0_lessThan_Suc)
  have z: "(\<exists>d < length (cv_diag diagonal_kernels [[2, 0], [0, 0]]).
              cv_diag diagonal_kernels [[2, 0], [0, 0]] ! d = 0) \<or>
           \<not> isfinite diagonal_kernels
               (cv_norm diagonal_kernels
                  (x_delta diagonal_kernels [[2, 0], [0, 0]] [3, 0] dead_entry))"
    by (rule disjI1, rule exI[of _ 1]) (simp add: d)
  from ill_posed_returns_false[OF e dead_inner_entry dead_entry_guard u z]
  have "Solve demo_algorithm diagonal_kernels dead_problem [1, 1, 1] =
     Returned False [NotResponsive 1, IllPosed] None"
    by (simp add: d numeral_2_eq_2)
  with d show ?thesis by simp
qed

text \<open>
  The claim as stated, that the warning names the index of the parameter, fails when the
  active set is not all of the parameters in their order. With the first and the third of
  three parameters active and a residual that does not depend on the third, the warning
  names 1: the position of the third parameter in the active set, and the index of a
  parameter that is not active and to which the residual does respond.
\<close>

theorem warning_names_position:
  "m_varIdx dead_problem = [0, 2] \<and>
   (\<forall>x v. evaluate dead_problem (x[2 := v]) = evaluate dead_problem x) \<and>
   evaluate dead_problem [1, 2, 1] \<noteq> evaluate dead_problem [1, 1, 1] \<and>
   Solve demo_algorithm diagonal_kernels dead_problem [1, 1, 1] =
     Returned False [NotResponsive 1, IllPosed] None"
proof -
  have g: "\<not> better dead_entry" "\<not> converged dead_entry"
    by (simp_all add: dead_entry_def)
  have "outer_loop demo_algorithm diagonal_kernels dead_problem dead_entry =
      Inl (Returned False [NotResponsive 1, IllPosed] None)"
    by (simp only: outer_loop_step[OF g(2) dead_entry_jacobian] dead_entry_normal
        inner_loop_step[OF g] dead_trial sum.case)
  then have o: "outer_loop demo_algorithm diagonal_kernels dead_problem
                  (initial_state demo_algorithm diagonal_kernels dead_problem [1, 1, 1]) =
      Inl (Returned False [NotResponsive 1, IllPosed] None)"
    by (simp only: dead_initial)
  have e: "1 < m_eta demo_algorithm" by (simp add: demo_algorithm_def)
  have 4: "Solve demo_algorithm diagonal_kernels dead_problem [1, 1, 1] =
      Returned False [NotResponsive 1, IllPosed] None"
    by (simp add: Solve_def commit_def o e)
  have 1: "m_varIdx dead_problem = [0, 2]" by (simp add: dead_problem_def)
  have 2: "\<forall>x v. evaluate dead_problem (x[2 := v]) = evaluate dead_problem x"
    by (simp add: dead_problem_def)
  have 3: "evaluate dead_problem [1, 2, 1] \<noteq> evaluate dead_problem [1, 1, 1]"
    by (simp add: dead_problem_def)
  from 1 2 3 4 show ?thesis by blast
qed

end
